theory Spec2Isabelle
  imports Complex_Main
begin

section \<open>The bullet of the server simulation (src/server/Bullet.js)\<close>

text \<open>
  JavaScript numbers are modelled as mathematical numbers: coordinates, velocities,
  distances, health and damage as \<open>real\<close>, the kill counter as \<open>int\<close>. Rounding of
  IEEE doubles, \<open>NaN\<close> and the infinities are outside the model. Socket identities are
  strings, compared by \<open>!=\<close> as strings.
\<close>

subsection \<open>Data\<close>

text \<open>
  The fields the constructor \<open>Bullet\<close> assigns, in its order, followed by the field
  \<open>updateTimeDifference\<close> that \<open>Entity.prototype.update\<close> maintains and
  \<open>Bullet.prototype.update\<close> reads.
\<close>

record bullet =
  x :: real
  y :: real
  vx :: real
  vy :: real
  orientation :: real
  hitboxSize :: real
  source :: string
  damage :: real
  distanceTraveled :: real
  shouldExist :: bool
  updateTimeDifference :: real

text \<open>
  A player, as far as \<open>Bullet.js\<close> touches it: the field \<open>id\<close> it compares with the
  bullet's source, the counter \<open>kills\<close> it increments, and the health that the
  methods \<open>damage\<close> and \<open>isDead\<close> work on.
\<close>

record player =
  player_id :: string
  player_health :: real
  kills :: int

text \<open>
  A construct, as far as \<open>Bullet.js\<close> touches it: the fields \<open>owner\<close> and \<open>type\<close>
  it reads, and the health that the method \<open>damage\<close> works on. The type is the index
  that \<open>Drawing.js\<close> uses into its per-type image tables.
\<close>

record construct =
  owner :: string
  construct_type :: nat
  construct_health :: real

text \<open>
  What one call of \<open>Bullet.prototype.update\<close> can reach and mutate: the bullet itself
  (\<open>this\<close>), the client registry (a Hashmap from socket identity to player, kept as
  an association list in the registry's iteration order) and the array of constructs.
  The entries of the registry and of the array are distinct objects.
\<close>

record world =
  bullet :: bullet
  clients :: "(string \<times> player) list"
  constructs :: "construct list"

text \<open>
  The only fault the code of \<open>Bullet.prototype.update\<close> can raise by itself: reading
  a property of \<open>undefined\<close>. A fault leaves the mutations made before it in place, so
  a call returns the fault (if any) together with the world it left.
\<close>

datatype fault = TypeError

subsection \<open>Constants\<close>

definition VELOCITY_MAGNITUDE :: real where
  "VELOCITY_MAGNITUDE = 85 / 100"

definition DEFAULT_DAMAGE :: real where
  "DEFAULT_DAMAGE = 1"

definition MAX_TRAVEL_DISTANCE :: real where
  "MAX_TRAVEL_DISTANCE = 1000"

definition DEFAULT_HITBOX_SIZE :: real where
  "DEFAULT_HITBOX_SIZE = 4"

text \<open>
  Modelled from the spec: \<open>Constants.CONSTRUCT_TYPES.WALL\<close> (shared/Constants.js is
  not among the sources). The spec only says that the construct type is enumerated
  with a distinguished WALL variant; the value is the index at which \<open>Drawing.js\<close>
  keeps the wall image in its per-type tables. No theorem depends on the value.
\<close>

definition WALL :: nat where
  "WALL = 3"

subsection \<open>Collaborators\<close>

text \<open>
  Modelled from the spec: \<open>Entity.prototype.update\<close> (server/Entity.js is not among
  the sources). It refreshes the elapsed time since the previous tick and advances the
  position by velocity times elapsed time. The elapsed time \<open>dt\<close> is what the clock
  gives at the call, an input of the model.
\<close>

definition Entity_update :: "real \<Rightarrow> bullet \<Rightarrow> bullet" where
  "Entity_update dt b =
     b\<lparr>updateTimeDifference := dt,
       x := x b + vx b * dt,
       y := y b + vy b * dt\<rparr>"

text \<open>
  Modelled from the spec: \<open>Player.prototype.damage\<close>, \<open>Player.prototype.isDead\<close>
  and \<open>Construct.prototype.damage\<close> (their files are not among the sources). Damage
  removes health points; a player is dead when its health is at most 0.
\<close>

definition Player_damage :: "real \<Rightarrow> player \<Rightarrow> player" where
  "Player_damage amount p = p\<lparr>player_health := player_health p - amount\<rparr>"

definition Player_isDead :: "player \<Rightarrow> bool" where
  "Player_isDead p = (player_health p \<le> 0)"

definition Construct_damage :: "real \<Rightarrow> construct \<Rightarrow> construct" where
  "Construct_damage amount c = c\<lparr>construct_health := construct_health c - amount\<rparr>"

text \<open>
  The registry operations the bullet uses: \<open>values()\<close> gives the players in
  iteration order, \<open>get(key)\<close> the player stored under a key or \<open>undefined\<close>.
\<close>

definition Hashmap_values :: "(string \<times> player) list \<Rightarrow> player list" where
  "Hashmap_values cl = map snd cl"

definition Hashmap_get :: "(string \<times> player) list \<Rightarrow> string \<Rightarrow> player option" where
  "Hashmap_get cl k = map_of cl k"

text \<open>
  \<open>killingPlayer.kills++\<close> on the object that \<open>clients.get(this.source)\<close> returned:
  the entry stored under the key is the one mutated.
\<close>

fun kills_increment :: "string \<Rightarrow> (string \<times> player) list \<Rightarrow> (string \<times> player) list" where
  "kills_increment k [] = []"
| "kills_increment k (kp # kps) =
     (if fst kp = k then (fst kp, (snd kp)\<lparr>kills := kills (snd kp) + 1\<rparr>) # kps
      else kp # kills_increment k kps)"

text \<open>
  The hit tests \<open>Util.inWorld\<close>, \<open>Player.prototype.isCollidedWith\<close> and
  \<open>Construct.prototype.isCollidedWith\<close> are not among the sources and the spec gives
  no formula for them. They are parameters of the update: \<open>inWorld\<close>, \<open>pHit\<close> and
  \<open>cHit\<close>. They read their arguments and mutate nothing.
\<close>

subsection \<open>Construction\<close>

text \<open>
  The constructor. It assigns no \<open>updateTimeDifference\<close>; every read of that field
  in \<open>Bullet.prototype.update\<close> comes after \<open>Entity.prototype.update\<close> has set it, so
  the initial value 0 is never observed.
\<close>

definition Bullet ::
  "real \<Rightarrow> real \<Rightarrow> real \<Rightarrow> real \<Rightarrow> real \<Rightarrow> real \<Rightarrow> string \<Rightarrow> real \<Rightarrow> bullet" where
  "Bullet x0 y0 vx0 vy0 orientation0 hitboxSize0 source0 damage0 =
     \<lparr>x = x0, y = y0, vx = vx0, vy = vy0, orientation = orientation0,
      hitboxSize = hitboxSize0, source = source0, damage = damage0,
      distanceTraveled = 0, shouldExist = True, updateTimeDifference = 0\<rparr>"

definition Bullet_create :: "real \<Rightarrow> real \<Rightarrow> real \<Rightarrow> string \<Rightarrow> bullet" where
  "Bullet_create x0 y0 direction source0 =
     (let vx0 = VELOCITY_MAGNITUDE * cos (direction - pi / 2);
          vy0 = VELOCITY_MAGNITUDE * sin (direction - pi / 2);
          hitboxSize0 = DEFAULT_HITBOX_SIZE;
          damage0 = DEFAULT_DAMAGE
      in Bullet x0 y0 vx0 vy0 direction hitboxSize0 source0 damage0)"

subsection \<open>The update\<close>

text \<open>
  Lines 84 to 87: the inherited update, then the distance increment.
\<close>

definition Bullet_advance :: "real \<Rightarrow> bullet \<Rightarrow> bullet" where
  "Bullet_advance dt b =
     (let b1 = Entity_update dt b
      in b1\<lparr>distanceTraveled :=
              distanceTraveled b1 + VELOCITY_MAGNITUDE * updateTimeDifference b1\<rparr>)"

text \<open>
  The body of the player loop at index \<open>i\<close> (lines 98 to 104): damage the player,
  credit the kill when the player is dead, mark the bullet dead, return. When
  \<open>clients.get(this.source)\<close> is \<open>undefined\<close>, \<open>killingPlayer.kills++\<close> raises a
  TypeError: the player has been damaged, the assignment to \<open>shouldExist\<close> is not
  reached.
\<close>

definition player_hit :: "world \<Rightarrow> nat \<Rightarrow> fault option \<times> world" where
  "player_hit w i =
     (let b = bullet w;
          kp = clients w ! i;
          w1 = w\<lparr>clients := (clients w)[i := (fst kp, Player_damage (damage b) (snd kp))]\<rparr>
      in if Player_isDead (Hashmap_values (clients w1) ! i) then
           (case Hashmap_get (clients w1) (source b) of
              None \<Rightarrow> (Some TypeError, w1)
            | Some killingPlayer \<Rightarrow>
                (None, w1\<lparr>clients := kills_increment (source b) (clients w1),
                          bullet := b\<lparr>shouldExist := False\<rparr>\<rparr>))
         else (None, w1\<lparr>bullet := b\<lparr>shouldExist := False\<rparr>\<rparr>))"

text \<open>
  The player loop (lines 94 to 106), from index \<open>i\<close>. \<open>None\<close>: the loop ran to
  its end without a hit. \<open>Some r\<close>: the update returned from inside the loop with \<open>r\<close>.
\<close>

function players_loop ::
  "(player \<Rightarrow> bullet \<Rightarrow> bool) \<Rightarrow> world \<Rightarrow> nat \<Rightarrow> (fault option \<times> world) option" where
  "players_loop pHit w i =
     (let players = Hashmap_values (clients w)
      in if i < length players then
           if source (bullet w) \<noteq> player_id (players ! i) \<and> pHit (players ! i) (bullet w)
           then Some (player_hit w i)
           else players_loop pHit w (Suc i)
         else None)"
  by pat_completeness auto
termination
  by (relation "measure (\<lambda>(pHit, w, i). length (clients w) - i)")
     (auto simp: Hashmap_values_def)

text \<open>
  The body of the construct loop at index \<open>i\<close> (lines 112 to 114).
\<close>

definition construct_hit :: "world \<Rightarrow> nat \<Rightarrow> fault option \<times> world" where
  "construct_hit w i =
     (let b = bullet w
      in (None, w\<lparr>constructs := (constructs w)[i := Construct_damage (damage b) (constructs w ! i)],
                  bullet := b\<lparr>shouldExist := False\<rparr>\<rparr>))"

text \<open>
  The construct loop (lines 108 to 116), from index \<open>i\<close>.
\<close>

function constructs_loop ::
  "(construct \<Rightarrow> bullet \<Rightarrow> bool) \<Rightarrow> world \<Rightarrow> nat \<Rightarrow> (fault option \<times> world) option" where
  "constructs_loop cHit w i =
     (if i < length (constructs w) then
        if (source (bullet w) \<noteq> owner (constructs w ! i) \<or>
            construct_type (constructs w ! i) = WALL) \<and>
           cHit (constructs w ! i) (bullet w)
        then Some (construct_hit w i)
        else constructs_loop cHit w (Suc i)
      else None)"
  by pat_completeness auto
termination
  by (relation "measure (\<lambda>(cHit, w, i). length (constructs w) - i)") auto

text \<open>
  \<open>Bullet.prototype.update\<close> (lines 83 to 117). \<open>dt\<close> is the elapsed time that the
  inherited update records.
\<close>

definition Bullet_update ::
  "real \<Rightarrow> (real \<Rightarrow> real \<Rightarrow> bool) \<Rightarrow> (player \<Rightarrow> bullet \<Rightarrow> bool) \<Rightarrow>
   (construct \<Rightarrow> bullet \<Rightarrow> bool) \<Rightarrow> world \<Rightarrow> fault option \<times> world" where
  "Bullet_update dt inWorld pHit cHit w =
     (let b = Bullet_advance dt (bullet w);
          w1 = w\<lparr>bullet := b\<rparr>
      in if distanceTraveled b > MAX_TRAVEL_DISTANCE \<or> \<not> inWorld (x b) (y b) then
           (None, w1\<lparr>bullet := b\<lparr>shouldExist := False\<rparr>\<rparr>)
         else
           (case players_loop pHit w1 0 of
              Some r \<Rightarrow> r
            | None \<Rightarrow>
                (case constructs_loop cHit w1 0 of
                   Some r \<Rightarrow> r
                 | None \<Rightarrow> (None, w1))))"

subsection \<open>Notions the properties are stated with\<close>

text \<open>
  The termination check of line 88, on the bullet as it is after lines 84 to 87.
\<close>

definition expired :: "(real \<Rightarrow> real \<Rightarrow> bool) \<Rightarrow> bullet \<Rightarrow> bool" where
  "expired inWorld b =
     (distanceTraveled b > MAX_TRAVEL_DISTANCE \<or> \<not> inWorld (x b) (y b))"

text \<open>
  A player that the bullet may hit: another identity than the bullet's source, and
  colliding. A construct that the bullet may hit: owned by another identity than the
  bullet's source or a wall, and colliding.
\<close>

definition player_eligible :: "(player \<Rightarrow> bullet \<Rightarrow> bool) \<Rightarrow> bullet \<Rightarrow> player \<Rightarrow> bool" where
  "player_eligible pHit b p = (source b \<noteq> player_id p \<and> pHit p b)"

definition construct_eligible ::
  "(construct \<Rightarrow> bullet \<Rightarrow> bool) \<Rightarrow> bullet \<Rightarrow> construct \<Rightarrow> bool" where
  "construct_eligible cHit b c =
     ((source b \<noteq> owner c \<or> construct_type c = WALL) \<and> cHit c b)"

text \<open>
  Index \<open>j\<close> is the first position of the list whose element satisfies \<open>P\<close>.
\<close>

definition first_at :: "('a \<Rightarrow> bool) \<Rightarrow> 'a list \<Rightarrow> nat \<Rightarrow> bool" where
  "first_at P xs j = (j < length xs \<and> P (xs ! j) \<and> list_all (\<lambda>a. \<not> P a) (take j xs))"

text \<open>
  The kill counters of the registry, in its order.
\<close>

definition kills_of :: "(string \<times> player) list \<Rightarrow> int list" where
  "kills_of cl = map (\<lambda>kp. kills (snd kp)) cl"

text \<open>
  The health of the players of the registry, in its order.
\<close>

definition healths_of :: "(string \<times> player) list \<Rightarrow> real list" where
  "healths_of cl = map (\<lambda>kp. player_health (snd kp)) cl"

text \<open>
  The world at the termination check: the bullet advanced, nothing else touched.
\<close>

definition at_check :: "real \<Rightarrow> world \<Rightarrow> world" where
  "at_check dt w = w\<lparr>bullet := Bullet_advance dt (bullet w)\<rparr>"

subsection \<open>Concrete scenes\<close>

text \<open>
  A square world, a hit test that every entity passes and one that none passes.
\<close>

definition square_world :: "real \<Rightarrow> real \<Rightarrow> bool" where
  "square_world a c = (0 \<le> a \<and> a \<le> 2500 \<and> 0 \<le> c \<and> c \<le> 2500)"

definition hit_all :: "'a \<Rightarrow> bullet \<Rightarrow> bool" where
  "hit_all e b = True"

definition hit_none :: "'a \<Rightarrow> bullet \<Rightarrow> bool" where
  "hit_none e b = False"

text \<open>
  The collision test that exactly the players other than the bullet's shooter pass.
\<close>

definition hit_others :: "player \<Rightarrow> bullet \<Rightarrow> bool" where
  "hit_others p b = (source b \<noteq> player_id p)"

text \<open>
  The bullet that \<open>Bullet.create(100, 100, 0, 'A')\<close> gives (direction 0 is up:
  \<open>vx = 0\<close>, \<open>vy = -0.85\<close>), and players and constructs around it.
\<close>

definition bullet_A :: bullet where
  "bullet_A = Bullet 100 100 0 (- (85 / 100)) 0 4 ''A'' 1"

definition player_A :: player where
  "player_A = \<lparr>player_id = ''A'', player_health = 10, kills = 0\<rparr>"

definition player_B :: player where
  "player_B = \<lparr>player_id = ''B'', player_health = 1, kills = 0\<rparr>"

definition player_C :: player where
  "player_C = \<lparr>player_id = ''C'', player_health = 2, kills = 5\<rparr>"

definition turret_A :: construct where
  "turret_A = \<lparr>owner = ''A'', construct_type = 0, construct_health = 6\<rparr>"

definition wall_A :: construct where
  "wall_A = \<lparr>owner = ''A'', construct_type = WALL, construct_health = 6\<rparr>"

definition turret_B :: construct where
  "turret_B = \<lparr>owner = ''B'', construct_type = 0, construct_health = 6\<rparr>"

section \<open>Auxiliary facts\<close>

subsection \<open>The two loops\<close>

declare players_loop.simps [simp del] constructs_loop.simps [simp del]

lemma players_loop_None:
  "players_loop pHit w i = None \<longleftrightarrow>
     (\<forall>j. i \<le> j \<and> j < length (clients w) \<longrightarrow>
          \<not> player_eligible pHit (bullet w) (snd (clients w ! j)))"
proof (induction pHit w i rule: players_loop.induct)
  case (1 pHit w i)
  show ?case
  proof (cases "i < length (clients w)")
    case False
    then show ?thesis
      by (subst players_loop.simps) (auto simp: Hashmap_values_def)
  next
    case inb: True
    show ?thesis
    proof (cases "player_eligible pHit (bullet w) (snd (clients w ! i))")
      case True
      with inb show ?thesis
        by (subst players_loop.simps) (auto simp: Hashmap_values_def player_eligible_def)
    next
      case False
      with inb have step: "players_loop pHit w i = players_loop pHit w (Suc i)"
        by (subst players_loop.simps) (auto simp: Hashmap_values_def player_eligible_def)
      from inb False have ih:
        "players_loop pHit w (Suc i) = None \<longleftrightarrow>
           (\<forall>j. Suc i \<le> j \<and> j < length (clients w) \<longrightarrow>
              \<not> player_eligible pHit (bullet w) (snd (clients w ! j)))"
        using "1.IH" [OF refl] by (simp add: Hashmap_values_def player_eligible_def)
      have "(\<forall>j. Suc i \<le> j \<and> j < length (clients w) \<longrightarrow>
              \<not> player_eligible pHit (bullet w) (snd (clients w ! j))) \<longleftrightarrow>
            (\<forall>j. i \<le> j \<and> j < length (clients w) \<longrightarrow>
              \<not> player_eligible pHit (bullet w) (snd (clients w ! j)))"
        using False by (metis Suc_leD Suc_leI le_neq_implies_less)
      with step ih show ?thesis by simp
    qed
  qed
qed

lemma players_loop_Some:
  "players_loop pHit w i = Some r \<Longrightarrow>
     \<exists>j. i \<le> j \<and> j < length (clients w) \<and>
         player_eligible pHit (bullet w) (snd (clients w ! j)) \<and>
         (\<forall>k. i \<le> k \<and> k < j \<longrightarrow> \<not> player_eligible pHit (bullet w) (snd (clients w ! k))) \<and>
         r = player_hit w j"
proof (induction pHit w i rule: players_loop.induct)
  case (1 pHit w i)
  show ?case
  proof (cases "i < length (clients w)")
    case False
    with "1.prems" show ?thesis
      by (subst (asm) players_loop.simps) (simp add: Hashmap_values_def)
  next
    case inb: True
    show ?thesis
    proof (cases "player_eligible pHit (bullet w) (snd (clients w ! i))")
      case True
      with inb "1.prems" have "r = player_hit w i"
        by (subst (asm) players_loop.simps) (auto simp: Hashmap_values_def player_eligible_def)
      with inb True show ?thesis by auto
    next
      case False
      with inb "1.prems" have step: "players_loop pHit w (Suc i) = Some r"
        by (subst (asm) players_loop.simps) (auto simp: Hashmap_values_def player_eligible_def)
      from inb False have
        "\<exists>j. Suc i \<le> j \<and> j < length (clients w) \<and>
         player_eligible pHit (bullet w) (snd (clients w ! j)) \<and>
         (\<forall>k. Suc i \<le> k \<and> k < j \<longrightarrow> \<not> player_eligible pHit (bullet w) (snd (clients w ! k))) \<and>
         r = player_hit w j"
        using "1.IH" [OF refl _ _ step] by (simp add: Hashmap_values_def player_eligible_def)
      then obtain j where j: "Suc i \<le> j" "j < length (clients w)"
         "player_eligible pHit (bullet w) (snd (clients w ! j))"
         "\<forall>k. Suc i \<le> k \<and> k < j \<longrightarrow> \<not> player_eligible pHit (bullet w) (snd (clients w ! k))"
         "r = player_hit w j" by blast
      have "\<forall>k. i \<le> k \<and> k < j \<longrightarrow> \<not> player_eligible pHit (bullet w) (snd (clients w ! k))"
        using j(4) False by (metis Suc_leI le_neq_implies_less)
      with j show ?thesis by (intro exI [of _ j]) simp
    qed
  qed
qed

lemma constructs_loop_None:
  "constructs_loop cHit w i = None \<longleftrightarrow>
     (\<forall>j. i \<le> j \<and> j < length (constructs w) \<longrightarrow>
          \<not> construct_eligible cHit (bullet w) (constructs w ! j))"
proof (induction cHit w i rule: constructs_loop.induct)
  case (1 cHit w i)
  show ?case
  proof (cases "i < length (constructs w)")
    case False
    then show ?thesis
      by (subst constructs_loop.simps) (auto simp: Let_def)
  next
    case inb: True
    show ?thesis
    proof (cases "construct_eligible cHit (bullet w) (constructs w ! i)")
      case True
      with inb show ?thesis
        by (subst constructs_loop.simps) (auto simp: Let_def construct_eligible_def)
    next
      case False
      with inb have step: "constructs_loop cHit w i = constructs_loop cHit w (Suc i)"
        by (subst constructs_loop.simps) (auto simp: Let_def construct_eligible_def)
      from inb False have ih:
        "constructs_loop cHit w (Suc i) = None \<longleftrightarrow>
           (\<forall>j. Suc i \<le> j \<and> j < length (constructs w) \<longrightarrow>
              \<not> construct_eligible cHit (bullet w) (constructs w ! j))"
        using "1.IH" by (simp add: Let_def construct_eligible_def)
      have "(\<forall>j. Suc i \<le> j \<and> j < length (constructs w) \<longrightarrow>
              \<not> construct_eligible cHit (bullet w) (constructs w ! j)) \<longleftrightarrow>
            (\<forall>j. i \<le> j \<and> j < length (constructs w) \<longrightarrow>
              \<not> construct_eligible cHit (bullet w) (constructs w ! j))"
        using False by (metis Suc_leD Suc_leI le_neq_implies_less)
      with step ih show ?thesis by simp
    qed
  qed
qed

lemma constructs_loop_Some:
  "constructs_loop cHit w i = Some r \<Longrightarrow>
     \<exists>j. i \<le> j \<and> j < length (constructs w) \<and>
         construct_eligible cHit (bullet w) (constructs w ! j) \<and>
         (\<forall>k. i \<le> k \<and> k < j \<longrightarrow> \<not> construct_eligible cHit (bullet w) (constructs w ! k)) \<and>
         r = construct_hit w j"
proof (induction cHit w i rule: constructs_loop.induct)
  case (1 cHit w i)
  show ?case
  proof (cases "i < length (constructs w)")
    case False
    with "1.prems" show ?thesis
      by (subst (asm) constructs_loop.simps) (simp add: Let_def)
  next
    case inb: True
    show ?thesis
    proof (cases "construct_eligible cHit (bullet w) (constructs w ! i)")
      case True
      with inb "1.prems" have "r = construct_hit w i"
        by (subst (asm) constructs_loop.simps) (auto simp: Let_def construct_eligible_def)
      with inb True show ?thesis by auto
    next
      case False
      with inb "1.prems" have step: "constructs_loop cHit w (Suc i) = Some r"
        by (subst (asm) constructs_loop.simps) (auto simp: Let_def construct_eligible_def)
      from inb False have
        "\<exists>j. Suc i \<le> j \<and> j < length (constructs w) \<and>
         construct_eligible cHit (bullet w) (constructs w ! j) \<and>
         (\<forall>k. Suc i \<le> k \<and> k < j \<longrightarrow> \<not> construct_eligible cHit (bullet w) (constructs w ! k)) \<and>
         r = construct_hit w j"
        using "1.IH" step by (simp add: Let_def construct_eligible_def)
      then obtain j where j: "Suc i \<le> j" "j < length (constructs w)"
         "construct_eligible cHit (bullet w) (constructs w ! j)"
         "\<forall>k. Suc i \<le> k \<and> k < j \<longrightarrow> \<not> construct_eligible cHit (bullet w) (constructs w ! k)"
         "r = construct_hit w j" by blast
      have "\<forall>k. i \<le> k \<and> k < j \<longrightarrow> \<not> construct_eligible cHit (bullet w) (constructs w ! k)"
        using j(4) False by (metis Suc_leI le_neq_implies_less)
      with j show ?thesis by (intro exI [of _ j]) simp
    qed
  qed
qed

subsection \<open>First positions\<close>

lemma first_at_iff:
  "first_at P xs j \<longleftrightarrow> j < length xs \<and> P (xs ! j) \<and> (\<forall>k<j. \<not> P (xs ! k))"
proof (cases "j < length xs")
  case True
  then have "list_all (\<lambda>a. \<not> P a) (take j xs) \<longleftrightarrow> (\<forall>k<j. \<not> P (xs ! k))"
    by (simp add: list_all_length)
  then show ?thesis by (simp add: first_at_def)
next
  case False
  then show ?thesis by (simp add: first_at_def)
qed

lemma first_at_unique: "first_at P xs j \<Longrightarrow> first_at P xs j' \<Longrightarrow> j = j'"
  unfolding first_at_iff by (meson nat_neq_iff)

lemma first_at_exists: "\<exists>a\<in>set xs. P a \<Longrightarrow> \<exists>j. first_at P xs j"
proof -
  assume "\<exists>a\<in>set xs. P a"
  then obtain i where i: "i < length xs" "P (xs ! i)"
    by (auto simp: in_set_conv_nth)
  define j where "j = (LEAST n. n < length xs \<and> P (xs ! n))"
  have "j < length xs \<and> P (xs ! j)"
    unfolding j_def using i by (metis (mono_tags, lifting) LeastI)
  moreover have "\<forall>k<j. \<not> P (xs ! k)"
  proof (intro allI impI)
    fix k assume "k < j"
    then have "\<not> (k < length xs \<and> P (xs ! k))"
      unfolding j_def by (rule not_less_Least)
    with \<open>k < j\<close> \<open>j < length xs \<and> P (xs ! j)\<close> show "\<not> P (xs ! k)" by simp
  qed
  ultimately show ?thesis unfolding first_at_iff by blast
qed

lemma first_at_none: "first_at P xs j \<Longrightarrow> \<exists>a\<in>set xs. P a"
  unfolding first_at_iff by (meson nth_mem)

subsection \<open>What each loop returns\<close>

lemma players_loop_first:
  assumes "first_at (player_eligible pHit (bullet w)) (Hashmap_values (clients w)) j"
  shows "players_loop pHit w 0 = Some (player_hit w j)"
proof -
  from assms have j: "j < length (clients w)"
      "player_eligible pHit (bullet w) (snd (clients w ! j))"
      "\<forall>k<j. \<not> player_eligible pHit (bullet w) (snd (clients w ! k))"
    unfolding first_at_iff by (auto simp: Hashmap_values_def)
  from j(1,2) have "players_loop pHit w 0 \<noteq> None"
    unfolding players_loop_None by blast
  then obtain r where r: "players_loop pHit w 0 = Some r" by blast
  from players_loop_Some [OF r] obtain j' where j': "j' < length (clients w)"
      "player_eligible pHit (bullet w) (snd (clients w ! j'))"
      "\<forall>k. 0 \<le> k \<and> k < j' \<longrightarrow> \<not> player_eligible pHit (bullet w) (snd (clients w ! k))"
      "r = player_hit w j'"
    by blast
  from j j' have "j = j'" by (meson le0 nat_neq_iff)
  with r j'(4) show ?thesis by simp
qed

lemma players_loop_none:
  assumes "\<forall>p\<in>set (Hashmap_values (clients w)). \<not> player_eligible pHit (bullet w) p"
  shows "players_loop pHit w 0 = None"
  unfolding players_loop_None using assms by (simp add: Hashmap_values_def)

lemma constructs_loop_first:
  assumes "first_at (construct_eligible cHit (bullet w)) (constructs w) j"
  shows "constructs_loop cHit w 0 = Some (construct_hit w j)"
proof -
  from assms have j: "j < length (constructs w)"
      "construct_eligible cHit (bullet w) (constructs w ! j)"
      "\<forall>k<j. \<not> construct_eligible cHit (bullet w) (constructs w ! k)"
    unfolding first_at_iff by simp_all
  from j(1,2) have "constructs_loop cHit w 0 \<noteq> None"
    unfolding constructs_loop_None by blast
  then obtain r where r: "constructs_loop cHit w 0 = Some r" by blast
  from constructs_loop_Some [OF r] obtain j' where j': "j' < length (constructs w)"
      "construct_eligible cHit (bullet w) (constructs w ! j')"
      "\<forall>k. 0 \<le> k \<and> k < j' \<longrightarrow> \<not> construct_eligible cHit (bullet w) (constructs w ! k)"
      "r = construct_hit w j'"
    by blast
  from j j' have "j = j'" by (meson le0 nat_neq_iff)
  with r j'(4) show ?thesis by simp
qed

lemma constructs_loop_none:
  assumes "\<forall>c\<in>set (constructs w). \<not> construct_eligible cHit (bullet w) c"
  shows "constructs_loop cHit w 0 = None"
  unfolding constructs_loop_None using assms by simp

subsection \<open>The four ways an update ends\<close>

lemma at_check_simps [simp]:
  "bullet (at_check dt w) = Bullet_advance dt (bullet w)"
  "clients (at_check dt w) = clients w"
  "constructs (at_check dt w) = constructs w"
  by (simp_all add: at_check_def)

lemma Bullet_update_expired:
  assumes "expired inWorld (Bullet_advance dt (bullet w))"
  shows "Bullet_update dt inWorld pHit cHit w =
           (None, (at_check dt w)\<lparr>bullet := (Bullet_advance dt (bullet w))\<lparr>shouldExist := False\<rparr>\<rparr>)"
  using assms by (simp add: Bullet_update_def expired_def at_check_def Let_def)

lemma Bullet_update_player:
  assumes "\<not> expired inWorld (Bullet_advance dt (bullet w))"
    and "first_at (player_eligible pHit (Bullet_advance dt (bullet w)))
           (Hashmap_values (clients w)) j"
  shows "Bullet_update dt inWorld pHit cHit w = player_hit (at_check dt w) j"
proof -
  have "players_loop pHit (at_check dt w) 0 = Some (player_hit (at_check dt w) j)"
    using assms(2) by (intro players_loop_first) simp
  with assms(1) show ?thesis
    by (simp add: Bullet_update_def expired_def at_check_def Let_def)
qed

lemma Bullet_update_construct:
  assumes "\<not> expired inWorld (Bullet_advance dt (bullet w))"
    and "\<forall>p\<in>set (Hashmap_values (clients w)).
           \<not> player_eligible pHit (Bullet_advance dt (bullet w)) p"
    and "first_at (construct_eligible cHit (Bullet_advance dt (bullet w))) (constructs w) j"
  shows "Bullet_update dt inWorld pHit cHit w = construct_hit (at_check dt w) j"
proof -
  have "players_loop pHit (at_check dt w) 0 = None"
    using assms(2) by (intro players_loop_none) simp
  moreover have "constructs_loop cHit (at_check dt w) 0 = Some (construct_hit (at_check dt w) j)"
    using assms(3) by (intro constructs_loop_first) simp
  ultimately show ?thesis using assms(1)
    by (simp add: Bullet_update_def expired_def at_check_def Let_def)
qed

lemma Bullet_update_miss:
  assumes "\<not> expired inWorld (Bullet_advance dt (bullet w))"
    and "\<forall>p\<in>set (Hashmap_values (clients w)).
           \<not> player_eligible pHit (Bullet_advance dt (bullet w)) p"
    and "\<forall>c\<in>set (constructs w). \<not> construct_eligible cHit (Bullet_advance dt (bullet w)) c"
  shows "Bullet_update dt inWorld pHit cHit w = (None, at_check dt w)"
proof -
  have "players_loop pHit (at_check dt w) 0 = None"
    using assms(2) by (intro players_loop_none) simp
  moreover have "constructs_loop cHit (at_check dt w) 0 = None"
    using assms(3) by (intro constructs_loop_none) simp
  ultimately show ?thesis using assms(1)
    by (simp add: Bullet_update_def expired_def at_check_def Let_def)
qed

text \<open>Every call ends in one of the four ways.\<close>

lemma Bullet_update_cases:
  obtains (expired) "expired inWorld (Bullet_advance dt (bullet w))"
      "Bullet_update dt inWorld pHit cHit w =
         (None, (at_check dt w)\<lparr>bullet := (Bullet_advance dt (bullet w))\<lparr>shouldExist := False\<rparr>\<rparr>)"
  | (player) j where "\<not> expired inWorld (Bullet_advance dt (bullet w))"
      "first_at (player_eligible pHit (Bullet_advance dt (bullet w))) (Hashmap_values (clients w)) j"
      "Bullet_update dt inWorld pHit cHit w = player_hit (at_check dt w) j"
  | (construct) j where "\<not> expired inWorld (Bullet_advance dt (bullet w))"
      "\<forall>p\<in>set (Hashmap_values (clients w)).
           \<not> player_eligible pHit (Bullet_advance dt (bullet w)) p"
      "first_at (construct_eligible cHit (Bullet_advance dt (bullet w))) (constructs w) j"
      "Bullet_update dt inWorld pHit cHit w = construct_hit (at_check dt w) j"
  | (miss) "\<not> expired inWorld (Bullet_advance dt (bullet w))"
      "\<forall>p\<in>set (Hashmap_values (clients w)).
           \<not> player_eligible pHit (Bullet_advance dt (bullet w)) p"
      "\<forall>c\<in>set (constructs w). \<not> construct_eligible cHit (Bullet_advance dt (bullet w)) c"
      "Bullet_update dt inWorld pHit cHit w = (None, at_check dt w)"
proof (cases "expired inWorld (Bullet_advance dt (bullet w))")
  case ex: True
  show ?thesis by (rule expired [OF ex Bullet_update_expired [OF ex]])
next
  case ne: False
  show ?thesis
  proof (cases "\<exists>p\<in>set (Hashmap_values (clients w)).
           player_eligible pHit (Bullet_advance dt (bullet w)) p")
    case True
    then obtain j where j: "first_at (player_eligible pHit (Bullet_advance dt (bullet w)))
        (Hashmap_values (clients w)) j"
      using first_at_exists [of "Hashmap_values (clients w)"] by blast
    show ?thesis by (rule player [OF ne j Bullet_update_player [OF ne j]])
  next
    case np: False
    show ?thesis
    proof (cases "\<exists>c\<in>set (constructs w).
           construct_eligible cHit (Bullet_advance dt (bullet w)) c")
      case True
      then obtain j where j: "first_at (construct_eligible cHit (Bullet_advance dt (bullet w)))
          (constructs w) j"
        using first_at_exists [of "constructs w"] by blast
      from np have np': "\<forall>p\<in>set (Hashmap_values (clients w)).
           \<not> player_eligible pHit (Bullet_advance dt (bullet w)) p" by simp
      show ?thesis by (rule construct [OF ne np' j Bullet_update_construct [OF ne np' j]])
    next
      case nc: False
      from np have np': "\<forall>p\<in>set (Hashmap_values (clients w)).
           \<not> player_eligible pHit (Bullet_advance dt (bullet w)) p" by simp
      from nc have nc': "\<forall>c\<in>set (constructs w).
           \<not> construct_eligible cHit (Bullet_advance dt (bullet w)) c" by simp
      show ?thesis by (rule miss [OF ne np' nc' Bullet_update_miss [OF ne np' nc']])
    qed
  qed
qed

subsection \<open>What the update leaves alone\<close>

lemma Bullet_advance_frame [simp]:
  "vx (Bullet_advance dt b) = vx b"
  "vy (Bullet_advance dt b) = vy b"
  "orientation (Bullet_advance dt b) = orientation b"
  "hitboxSize (Bullet_advance dt b) = hitboxSize b"
  "source (Bullet_advance dt b) = source b"
  "damage (Bullet_advance dt b) = damage b"
  "shouldExist (Bullet_advance dt b) = shouldExist b"
  by (simp_all add: Bullet_advance_def Entity_update_def Let_def)

lemma player_hit_bullet:
  "bullet (snd (player_hit w j)) = bullet w \<or>
   bullet (snd (player_hit w j)) = (bullet w)\<lparr>shouldExist := False\<rparr>"
  by (simp add: player_hit_def Let_def split: option.split)

lemma player_hit_constructs [simp]:
  "constructs (snd (player_hit w j)) = constructs w"
  by (simp add: player_hit_def Let_def split: option.split)

lemma construct_hit_simps [simp]:
  "fst (construct_hit w j) = None"
  "bullet (snd (construct_hit w j)) = (bullet w)\<lparr>shouldExist := False\<rparr>"
  "clients (snd (construct_hit w j)) = clients w"
  "constructs (snd (construct_hit w j)) =
     (constructs w)[j := Construct_damage (damage (bullet w)) (constructs w ! j)]"
  by (simp_all add: construct_hit_def Let_def)

lemma Bullet_update_bullet:
  "bullet (snd (Bullet_update dt inWorld pHit cHit w)) = Bullet_advance dt (bullet w) \<or>
   bullet (snd (Bullet_update dt inWorld pHit cHit w)) =
     (Bullet_advance dt (bullet w))\<lparr>shouldExist := False\<rparr>"
proof (cases rule: Bullet_update_cases
    [where dt = dt and w = w and inWorld = inWorld and pHit = pHit and cHit = cHit])
  case expired
  then show ?thesis by simp
next
  case (player j)
  then show ?thesis using player_hit_bullet [of "at_check dt w" j] by simp
next
  case (construct j)
  then show ?thesis by simp
next
  case miss
  then show ?thesis by simp
qed

subsection \<open>The registry after a hit on a player\<close>

lemma length_kills_increment [simp]: "length (kills_increment k cl) = length cl"
  by (induction cl) auto

lemma keys_kills_increment [simp]: "map fst (kills_increment k cl) = map fst cl"
  by (induction cl) auto

lemma healths_kills_increment [simp]:
  "healths_of (kills_increment k cl) = healths_of cl"
  by (induction cl) (auto simp: healths_of_def)

lemma ids_kills_increment [simp]:
  "map (\<lambda>kp. player_id (snd kp)) (kills_increment k cl) = map (\<lambda>kp. player_id (snd kp)) cl"
  by (induction cl) auto

lemma get_kills_increment:
  "Hashmap_get (kills_increment k cl) k =
     map_option (\<lambda>p. p\<lparr>kills := kills p + 1\<rparr>) (Hashmap_get cl k)"
  by (induction cl) (auto simp: Hashmap_get_def)

lemma kills_of_kills_increment:
  "Hashmap_get cl k = Some p \<Longrightarrow>
   \<exists>m<length cl. fst (cl ! m) = k \<and> snd (cl ! m) = p \<and>
     kills_of (kills_increment k cl) = (kills_of cl)[m := kills p + 1]"
proof (induction cl)
  case Nil
  then show ?case by (simp add: Hashmap_get_def)
next
  case (Cons kp cl)
  show ?case
  proof (cases "fst kp = k")
    case True
    with Cons.prems have "snd kp = p"
      by (cases kp) (simp add: Hashmap_get_def)
    with True have "fst ((kp # cl) ! 0) = k \<and> snd ((kp # cl) ! 0) = p \<and>
        kills_of (kills_increment k (kp # cl)) = (kills_of (kp # cl))[0 := kills p + 1]"
      by (simp add: kills_of_def)
    then have "0 < length (kp # cl) \<and> fst ((kp # cl) ! 0) = k \<and> snd ((kp # cl) ! 0) = p \<and>
        kills_of (kills_increment k (kp # cl)) = (kills_of (kp # cl))[0 := kills p + 1]"
      by (simp del: kills_increment.simps)
    then show ?thesis by (intro exI [of _ 0])
  next
    case False
    with Cons.prems have "Hashmap_get cl k = Some p"
      by (cases kp) (simp add: Hashmap_get_def)
    from Cons.IH [OF this] obtain m where m: "m < length cl" "fst (cl ! m) = k"
        "snd (cl ! m) = p" "kills_of (kills_increment k cl) = (kills_of cl)[m := kills p + 1]"
      by blast
    with False have "Suc m < length (kp # cl) \<and> fst ((kp # cl) ! Suc m) = k \<and>
        snd ((kp # cl) ! Suc m) = p \<and>
        kills_of (kills_increment k (kp # cl)) = (kills_of (kp # cl))[Suc m := kills p + 1]"
      by (simp add: kills_of_def)
    then show ?thesis by (intro exI [of _ "Suc m"])
  qed
qed

text \<open>The registry with the player at \<open>j\<close> damaged.\<close>

lemma map_update_self: "(map f xs)[j := f (xs ! j)] = map f xs"
  by (metis list_update_id map_update)

lemma damaged_keys [simp]:
  "map fst (cl[j := (fst (cl ! j), Player_damage d (snd (cl ! j)))]) = map fst cl"
  by (simp add: map_update map_update_self)

lemma damaged_kills [simp]:
  "kills_of (cl[j := (fst (cl ! j), Player_damage d (snd (cl ! j)))]) = kills_of cl"
  using map_update_self [of "\<lambda>kp. kills (snd kp)" cl j]
  by (simp add: kills_of_def map_update Player_damage_def)

lemma damaged_ids [simp]:
  "map (\<lambda>kp. player_id (snd kp)) (cl[j := (fst (cl ! j), Player_damage d (snd (cl ! j)))]) =
     map (\<lambda>kp. player_id (snd kp)) cl"
  using map_update_self [of "\<lambda>kp. player_id (snd kp)" cl j]
  by (simp add: map_update Player_damage_def)

lemma damaged_healths [simp]:
  "healths_of (cl[j := (fst (cl ! j), Player_damage d (snd (cl ! j)))]) =
     (healths_of cl)[j := player_health (snd (cl ! j)) - d]"
  by (simp add: healths_of_def map_update Player_damage_def)

lemma damaged_get_kills:
  "map_option kills (Hashmap_get (cl[j := (fst (cl ! j), Player_damage d (snd (cl ! j)))]) k) =
     map_option kills (Hashmap_get cl k)"
proof -
  have "map (\<lambda>(k, p). (k, kills p)) (cl[j := (fst (cl ! j), Player_damage d (snd (cl ! j)))]) =
      map (\<lambda>(k, p). (k, kills p)) cl"
    using map_update_self [of "\<lambda>kp. (fst kp, kills (snd kp))" cl j]
    by (simp add: map_update Player_damage_def case_prod_unfold)
  then have "map_of (map (\<lambda>(k, p). (k, kills p))
        (cl[j := (fst (cl ! j), Player_damage d (snd (cl ! j)))])) k =
      map_of (map (\<lambda>(k, p). (k, kills p)) cl) k"
    by simp
  then show ?thesis
    by (simp add: Hashmap_get_def map_of_map)
qed

text \<open>
  The three ways the body of the player loop ends, by what it does to the registry.
\<close>

lemma player_hit_survivor:
  assumes "\<not> Player_isDead (Player_damage (damage (bullet w)) (snd (clients w ! j)))"
    and "j < length (clients w)"
  shows "player_hit w j =
    (None, w\<lparr>clients := (clients w)[j := (fst (clients w ! j),
                 Player_damage (damage (bullet w)) (snd (clients w ! j)))],
             bullet := (bullet w)\<lparr>shouldExist := False\<rparr>\<rparr>)"
  using assms by (simp add: player_hit_def Let_def Hashmap_values_def)

lemma player_hit_kill:
  assumes "Player_isDead (Player_damage (damage (bullet w)) (snd (clients w ! j)))"
    and "j < length (clients w)"
    and "Hashmap_get (clients w) (source (bullet w)) = Some shooter"
  shows "player_hit w j =
    (None, w\<lparr>clients := kills_increment (source (bullet w))
                ((clients w)[j := (fst (clients w ! j),
                   Player_damage (damage (bullet w)) (snd (clients w ! j)))]),
             bullet := (bullet w)\<lparr>shouldExist := False\<rparr>\<rparr>)"
proof -
  have "map_option kills (Hashmap_get ((clients w)[j := (fst (clients w ! j),
      Player_damage (damage (bullet w)) (snd (clients w ! j)))]) (source (bullet w))) =
      Some (kills shooter)"
    by (simp add: damaged_get_kills assms(3))
  then obtain s' where "Hashmap_get ((clients w)[j := (fst (clients w ! j),
      Player_damage (damage (bullet w)) (snd (clients w ! j)))]) (source (bullet w)) = Some s'"
    by blast
  with assms(1,2) show ?thesis
    by (simp add: player_hit_def Let_def Hashmap_values_def)
qed

lemma player_hit_fault:
  assumes "Player_isDead (Player_damage (damage (bullet w)) (snd (clients w ! j)))"
    and "j < length (clients w)"
    and "Hashmap_get (clients w) (source (bullet w)) = None"
  shows "player_hit w j =
    (Some TypeError, w\<lparr>clients := (clients w)[j := (fst (clients w ! j),
                 Player_damage (damage (bullet w)) (snd (clients w ! j)))]\<rparr>)"
proof -
  have "map_option kills (Hashmap_get ((clients w)[j := (fst (clients w ! j),
      Player_damage (damage (bullet w)) (snd (clients w ! j)))]) (source (bullet w))) = None"
    by (simp add: damaged_get_kills assms(3))
  then have "Hashmap_get ((clients w)[j := (fst (clients w ! j),
      Player_damage (damage (bullet w)) (snd (clients w ! j)))]) (source (bullet w)) = None"
    by simp
  with assms(1,2) show ?thesis
    by (simp add: player_hit_def Let_def Hashmap_values_def)
qed

lemma player_hit_healths:
  "healths_of (clients (snd (player_hit w j))) =
     (healths_of (clients w))[j := player_health (snd (clients w ! j)) - damage (bullet w)]"
  by (simp add: player_hit_def Let_def split: option.split)

lemma player_hit_keys:
  "map fst (clients (snd (player_hit w j))) = map fst (clients w)"
  by (simp add: player_hit_def Let_def split: option.split)

lemma player_hit_ids:
  "map (\<lambda>kp. player_id (snd kp)) (clients (snd (player_hit w j))) =
     map (\<lambda>kp. player_id (snd kp)) (clients w)"
  by (simp add: player_hit_def Let_def split: option.split)

lemma Bullet_update_healths:
  "healths_of (clients (snd (Bullet_update dt inWorld pHit cHit w))) = healths_of (clients w) \<or>
   (\<exists>j. first_at (player_eligible pHit (Bullet_advance dt (bullet w)))
          (Hashmap_values (clients w)) j \<and>
        healths_of (clients (snd (Bullet_update dt inWorld pHit cHit w))) =
          (healths_of (clients w))[j := player_health (snd (clients w ! j)) - damage (bullet w)])"
proof (cases rule: Bullet_update_cases
    [where dt = dt and w = w and inWorld = inWorld and pHit = pHit and cHit = cHit])
  case expired
  then show ?thesis by simp
next
  case (player j)
  then show ?thesis using player_hit_healths [of "at_check dt w" j] by auto
next
  case (construct j)
  then show ?thesis by simp
next
  case miss
  then show ?thesis by simp
qed

lemma Bullet_update_ids:
  "map (\<lambda>kp. player_id (snd kp)) (clients (snd (Bullet_update dt inWorld pHit cHit w))) =
     map (\<lambda>kp. player_id (snd kp)) (clients w)"
proof (cases rule: Bullet_update_cases
    [where dt = dt and w = w and inWorld = inWorld and pHit = pHit and cHit = cHit])
  case expired
  then show ?thesis by simp
next
  case (player j)
  then show ?thesis using player_hit_ids [of "at_check dt w" j] by simp
next
  case (construct j)
  then show ?thesis by simp
next
  case miss
  then show ?thesis by simp
qed

lemma Bullet_update_hit_test_cong:
  assumes "\<forall>p b. source b \<noteq> player_id p \<longrightarrow> pHit p b = pHit' p b"
  shows "Bullet_update dt inWorld pHit cHit w = Bullet_update dt inWorld pHit' cHit w"
proof -
  have e: "player_eligible pHit b = player_eligible pHit' b" for b
    using assms by (auto simp: player_eligible_def fun_eq_iff)
  show ?thesis
  proof (cases rule: Bullet_update_cases
      [where dt = dt and w = w and inWorld = inWorld and pHit = pHit and cHit = cHit])
    case expired
    then show ?thesis by (simp add: Bullet_update_expired)
  next
    case (player j)
    then show ?thesis
      using Bullet_update_player [of inWorld dt w pHit' j cHit] by (simp add: e)
  next
    case (construct j)
    then show ?thesis
      using Bullet_update_construct [of inWorld dt w pHit' cHit j] by (simp add: e)
  next
    case miss
    then show ?thesis
      using Bullet_update_miss [of inWorld dt w pHit' cHit] by (simp add: e)
  qed
qed

subsection \<open>When the shooter has left the registry\<close>

text \<open>
  The victim is dead after the damage and nobody is registered under the bullet's
  source: the update ends in a TypeError, with the victim damaged and the bullet
  not marked dead.
\<close>

lemma Bullet_update_absent_shooter:
  assumes "\<not> expired inWorld (Bullet_advance dt (bullet w))"
    and "first_at (player_eligible pHit (Bullet_advance dt (bullet w)))
           (Hashmap_values (clients w)) j"
    and "Player_isDead (Player_damage (damage (bullet w)) (snd (clients w ! j)))"
    and "Hashmap_get (clients w) (source (bullet w)) = None"
  shows "Bullet_update dt inWorld pHit cHit w =
    (Some TypeError,
     (at_check dt w)\<lparr>clients := (clients w)[j := (fst (clients w ! j),
        Player_damage (damage (bullet w)) (snd (clients w ! j)))]\<rparr>)"
proof -
  from assms(2) have "j < length (clients w)"
    by (simp add: first_at_iff Hashmap_values_def)
  with assms(3,4) show ?thesis
    using player_hit_fault [of "at_check dt w" j]
    by (simp add: Bullet_update_player [OF assms(1,2)])
qed

subsection \<open>Unfolding the model on concrete scenes\<close>

lemmas scene_defs =
  bullet_A_def player_A_def player_B_def player_C_def turret_A_def wall_A_def turret_B_def
  square_world_def hit_all_def hit_none_def Bullet_def

lemmas update_defs =
  Bullet_update_def Bullet_advance_def Entity_update_def Let_def
  VELOCITY_MAGNITUDE_def MAX_TRAVEL_DISTANCE_def
  players_loop.simps constructs_loop.simps player_hit_def construct_hit_def
  Hashmap_values_def Hashmap_get_def Player_damage_def Player_isDead_def Construct_damage_def

section \<open>The claims\<close>

text \<open>
  C1, as the code has it: the shooter \<open>'A'\<close> has left the registry, the bullet
  overlaps player \<open>'B'\<close> whose one health point it removes. \<open>B\<close> is damaged, then
  \<open>clients.get('A')\<close> is \<open>undefined\<close> and \<open>killingPlayer.kills++\<close> raises a
  TypeError: a fault is raised and the bullet is not marked dead.
\<close>

theorem absent_shooter_kill_raises:
  "Bullet_update 16 square_world hit_all hit_none
     \<lparr>bullet = bullet_A, clients = [(''B'', player_B)], constructs = []\<rparr> =
   (Some TypeError,
    \<lparr>bullet = \<lparr>x = 100, y = 432 / 5, vx = 0, vy = - (85 / 100), orientation = 0,
                hitboxSize = 4, source = ''A'', damage = 1, distanceTraveled = 68 / 5,
                shouldExist = True, updateTimeDifference = 16\<rparr>,
     clients = [(''B'', \<lparr>player_id = ''B'', player_health = 0, kills = 0\<rparr>)],
     constructs = []\<rparr>)"
  by (simp add: update_defs scene_defs)

text \<open>
  C2, as the claim states it, fails: a bullet whose distance is exactly
  \<open>MAX_TRAVEL_DISTANCE\<close> at the termination check (standing at 1000 with no time
  elapsed, or reaching 1000 from 915 in 100 ms) stays alive.
\<close>

theorem exactly_max_distance_stays_alive:
  "distanceTraveled (Bullet_advance 0 (bullet_A\<lparr>distanceTraveled := 1000\<rparr>)) = MAX_TRAVEL_DISTANCE \<and>
   shouldExist (bullet (snd (Bullet_update 0 square_world hit_all hit_all
     \<lparr>bullet = bullet_A\<lparr>distanceTraveled := 1000\<rparr>, clients = [(''A'', player_A)],
      constructs = [turret_A]\<rparr>))) \<and>
   distanceTraveled (Bullet_advance 100 (bullet_A\<lparr>distanceTraveled := 915\<rparr>)) = MAX_TRAVEL_DISTANCE \<and>
   shouldExist (bullet (snd (Bullet_update 100 square_world hit_all hit_all
     \<lparr>bullet = bullet_A\<lparr>distanceTraveled := 915\<rparr>, clients = [(''A'', player_A)],
      constructs = [turret_A]\<rparr>)))"
  by (simp add: update_defs scene_defs WALL_def)

text \<open>
  C2, amended: the distance check is strict. A bullet whose distance at the termination
  check is greater than \<open>MAX_TRAVEL_DISTANCE\<close> is marked dead on that tick. A bullet
  whose distance is at most \<open>MAX_TRAVEL_DISTANCE\<close> (exactly 1000, or 999) is not
  marked dead by the distance check: inside the world and with nothing to hit, the
  update ends without a fault, and the bullet is as alive as it was.
\<close>

theorem distance_check_is_strict:
  "(distanceTraveled (Bullet_advance dt (bullet w)) > MAX_TRAVEL_DISTANCE \<longrightarrow>
      \<not> shouldExist (bullet (snd (Bullet_update dt inWorld pHit cHit w)))) \<and>
   (distanceTraveled (Bullet_advance dt (bullet w)) \<le> MAX_TRAVEL_DISTANCE \<and>
    inWorld (x (Bullet_advance dt (bullet w))) (y (Bullet_advance dt (bullet w))) \<and>
    (\<forall>p\<in>set (Hashmap_values (clients w)).
        \<not> player_eligible pHit (Bullet_advance dt (bullet w)) p) \<and>
    (\<forall>c\<in>set (constructs w).
        \<not> construct_eligible cHit (Bullet_advance dt (bullet w)) c) \<longrightarrow>
      Bullet_update dt inWorld pHit cHit w = (None, at_check dt w) \<and>
      shouldExist (bullet (snd (Bullet_update dt inWorld pHit cHit w))) =
        shouldExist (bullet w))"
proof (intro conjI impI)
  assume "distanceTraveled (Bullet_advance dt (bullet w)) > MAX_TRAVEL_DISTANCE"
  then have "expired inWorld (Bullet_advance dt (bullet w))"
    by (simp add: expired_def)
  then show "\<not> shouldExist (bullet (snd (Bullet_update dt inWorld pHit cHit w)))"
    by (simp add: Bullet_update_expired)
next
  assume a: "distanceTraveled (Bullet_advance dt (bullet w)) \<le> MAX_TRAVEL_DISTANCE \<and>
    inWorld (x (Bullet_advance dt (bullet w))) (y (Bullet_advance dt (bullet w))) \<and>
    (\<forall>p\<in>set (Hashmap_values (clients w)).
        \<not> player_eligible pHit (Bullet_advance dt (bullet w)) p) \<and>
    (\<forall>c\<in>set (constructs w).
        \<not> construct_eligible cHit (Bullet_advance dt (bullet w)) c)"
  then have ne: "\<not> expired inWorld (Bullet_advance dt (bullet w))"
    by (simp add: expired_def)
  from a show u: "Bullet_update dt inWorld pHit cHit w = (None, at_check dt w)"
    by (intro Bullet_update_miss [OF ne]) simp_all
  show "shouldExist (bullet (snd (Bullet_update dt inWorld pHit cHit w))) =
        shouldExist (bullet w)"
    by (simp add: u)
qed

theorem distance_check_is_strict_witness:
  "distanceTraveled (Bullet_advance 0 (bullet_A\<lparr>distanceTraveled := 1000\<rparr>)) \<le> MAX_TRAVEL_DISTANCE \<and>
   shouldExist (bullet (snd (Bullet_update 0 square_world hit_all hit_all
     \<lparr>bullet = bullet_A\<lparr>distanceTraveled := 1000\<rparr>, clients = [(''A'', player_A)],
      constructs = [turret_A]\<rparr>))) \<and>
   distanceTraveled (Bullet_advance 0 (bullet_A\<lparr>distanceTraveled := 999\<rparr>)) \<le> MAX_TRAVEL_DISTANCE \<and>
   shouldExist (bullet (snd (Bullet_update 0 square_world hit_all hit_all
     \<lparr>bullet = bullet_A\<lparr>distanceTraveled := 999\<rparr>, clients = [(''A'', player_A)],
      constructs = [turret_A]\<rparr>))) \<and>
   distanceTraveled (Bullet_advance 1 (bullet_A\<lparr>distanceTraveled := 1000\<rparr>)) > MAX_TRAVEL_DISTANCE \<and>
   \<not> shouldExist (bullet (snd (Bullet_update 1 square_world hit_all hit_all
     \<lparr>bullet = bullet_A\<lparr>distanceTraveled := 1000\<rparr>, clients = [(''A'', player_A)],
      constructs = [turret_A]\<rparr>)))"
proof -
  have adv: "Bullet_advance 0 (bullet_A\<lparr>distanceTraveled := 1000\<rparr>) =
      bullet_A\<lparr>distanceTraveled := 1000\<rparr>"
    "Bullet_advance 0 (bullet_A\<lparr>distanceTraveled := 999\<rparr>) =
      bullet_A\<lparr>distanceTraveled := 999\<rparr>"
    by (simp_all add: Bullet_advance_def Entity_update_def Let_def scene_defs)
  have far: "distanceTraveled (Bullet_advance 1 (bullet_A\<lparr>distanceTraveled := 1000\<rparr>))
      > MAX_TRAVEL_DISTANCE"
    by (simp add: Bullet_advance_def Entity_update_def Let_def VELOCITY_MAGNITUDE_def
        MAX_TRAVEL_DISTANCE_def)
  have alive: "shouldExist bullet_A" by (simp add: scene_defs)
  have misses: "\<not> player_eligible hit_all (bullet_A\<lparr>distanceTraveled := d\<rparr>) player_A"
      "\<not> construct_eligible hit_all (bullet_A\<lparr>distanceTraveled := d\<rparr>) turret_A"
      "square_world (x bullet_A) (y bullet_A)"
    for d
    by (simp_all add: player_eligible_def construct_eligible_def scene_defs WALL_def)
  show ?thesis
    using far alive
      distance_check_is_strict [of 0
        "\<lparr>bullet = bullet_A\<lparr>distanceTraveled := 1000\<rparr>, clients = [(''A'', player_A)],
          constructs = [turret_A]\<rparr>" square_world hit_all hit_all]
      distance_check_is_strict [of 0
        "\<lparr>bullet = bullet_A\<lparr>distanceTraveled := 999\<rparr>, clients = [(''A'', player_A)],
          constructs = [turret_A]\<rparr>" square_world hit_all hit_all]
      distance_check_is_strict [of 1
        "\<lparr>bullet = bullet_A\<lparr>distanceTraveled := 1000\<rparr>, clients = [(''A'', player_A)],
          constructs = [turret_A]\<rparr>" square_world hit_all hit_all]
    by (simp add: adv misses Hashmap_values_def MAX_TRAVEL_DISTANCE_def)
qed

text \<open>
  C3: an update damages at most one target, players before constructs, first match in
  iteration order. If the termination check passes and \<open>j\<close> is the first player that
  may be hit, the player at \<open>j\<close> loses the bullet's damage, every other player keeps its
  health and no construct is touched, whatever constructs the bullet overlaps. If no
  player may be hit and \<open>j'\<close> is the first construct that may be hit, the construct at
  \<open>j'\<close> is damaged and nothing else changes. In every other call (termination check
  tripped, or nothing to hit) the registry and the constructs are unchanged. One of
  these cases always applies.
\<close>

theorem at_most_one_target_players_first:
  "(\<not> expired inWorld (Bullet_advance dt (bullet w)) \<and>
    first_at (player_eligible pHit (Bullet_advance dt (bullet w))) (Hashmap_values (clients w)) j \<longrightarrow>
      constructs (snd (Bullet_update dt inWorld pHit cHit w)) = constructs w \<and>
      map fst (clients (snd (Bullet_update dt inWorld pHit cHit w))) = map fst (clients w) \<and>
      healths_of (clients (snd (Bullet_update dt inWorld pHit cHit w))) =
        (healths_of (clients w))[j := healths_of (clients w) ! j - damage (bullet w)]) \<and>
   (\<not> expired inWorld (Bullet_advance dt (bullet w)) \<and>
    (\<forall>p\<in>set (Hashmap_values (clients w)).
        \<not> player_eligible pHit (Bullet_advance dt (bullet w)) p) \<and>
    first_at (construct_eligible cHit (Bullet_advance dt (bullet w))) (constructs w) j' \<longrightarrow>
      fst (Bullet_update dt inWorld pHit cHit w) = None \<and>
      clients (snd (Bullet_update dt inWorld pHit cHit w)) = clients w \<and>
      constructs (snd (Bullet_update dt inWorld pHit cHit w)) =
        (constructs w)[j' := Construct_damage (damage (bullet w)) (constructs w ! j')]) \<and>
   (expired inWorld (Bullet_advance dt (bullet w)) \<or>
    (\<forall>p\<in>set (Hashmap_values (clients w)).
        \<not> player_eligible pHit (Bullet_advance dt (bullet w)) p) \<and>
    (\<forall>c\<in>set (constructs w).
        \<not> construct_eligible cHit (Bullet_advance dt (bullet w)) c) \<longrightarrow>
      fst (Bullet_update dt inWorld pHit cHit w) = None \<and>
      clients (snd (Bullet_update dt inWorld pHit cHit w)) = clients w \<and>
      constructs (snd (Bullet_update dt inWorld pHit cHit w)) = constructs w) \<and>
   (expired inWorld (Bullet_advance dt (bullet w)) \<or>
    (\<exists>i. first_at (player_eligible pHit (Bullet_advance dt (bullet w)))
           (Hashmap_values (clients w)) i) \<or>
    (\<forall>p\<in>set (Hashmap_values (clients w)).
        \<not> player_eligible pHit (Bullet_advance dt (bullet w)) p) \<and>
    (\<exists>i. first_at (construct_eligible cHit (Bullet_advance dt (bullet w))) (constructs w) i) \<or>
    (\<forall>p\<in>set (Hashmap_values (clients w)).
        \<not> player_eligible pHit (Bullet_advance dt (bullet w)) p) \<and>
    (\<forall>c\<in>set (constructs w).
        \<not> construct_eligible cHit (Bullet_advance dt (bullet w)) c))"
proof (intro conjI impI)
  assume a: "\<not> expired inWorld (Bullet_advance dt (bullet w)) \<and>
    first_at (player_eligible pHit (Bullet_advance dt (bullet w))) (Hashmap_values (clients w)) j"
  then have u: "Bullet_update dt inWorld pHit cHit w = player_hit (at_check dt w) j"
    by (intro Bullet_update_player) simp_all
  from a have jl: "j < length (clients w)"
    by (simp add: first_at_iff Hashmap_values_def)
  show "constructs (snd (Bullet_update dt inWorld pHit cHit w)) = constructs w"
    by (simp add: u)
  show "map fst (clients (snd (Bullet_update dt inWorld pHit cHit w))) = map fst (clients w)"
    using player_hit_keys [of "at_check dt w" j] by (simp add: u)
  show "healths_of (clients (snd (Bullet_update dt inWorld pHit cHit w))) =
        (healths_of (clients w))[j := healths_of (clients w) ! j - damage (bullet w)]"
    using player_hit_healths [of "at_check dt w" j] jl by (simp add: u healths_of_def)
next
  assume a: "\<not> expired inWorld (Bullet_advance dt (bullet w)) \<and>
    (\<forall>p\<in>set (Hashmap_values (clients w)).
        \<not> player_eligible pHit (Bullet_advance dt (bullet w)) p) \<and>
    first_at (construct_eligible cHit (Bullet_advance dt (bullet w))) (constructs w) j'"
  then have u: "Bullet_update dt inWorld pHit cHit w = construct_hit (at_check dt w) j'"
    by (intro Bullet_update_construct) simp_all
  show "fst (Bullet_update dt inWorld pHit cHit w) = None"
    by (simp add: u)
  show "clients (snd (Bullet_update dt inWorld pHit cHit w)) = clients w"
    by (simp add: u)
  show "constructs (snd (Bullet_update dt inWorld pHit cHit w)) =
        (constructs w)[j' := Construct_damage (damage (bullet w)) (constructs w ! j')]"
    by (simp add: u)
next
  assume a: "expired inWorld (Bullet_advance dt (bullet w)) \<or>
    (\<forall>p\<in>set (Hashmap_values (clients w)).
        \<not> player_eligible pHit (Bullet_advance dt (bullet w)) p) \<and>
    (\<forall>c\<in>set (constructs w).
        \<not> construct_eligible cHit (Bullet_advance dt (bullet w)) c)"
  have "Bullet_update dt inWorld pHit cHit w =
      (None, (at_check dt w)\<lparr>bullet := (Bullet_advance dt (bullet w))\<lparr>shouldExist := False\<rparr>\<rparr>) \<or>
    Bullet_update dt inWorld pHit cHit w = (None, at_check dt w)"
  proof (cases "expired inWorld (Bullet_advance dt (bullet w))")
    case True
    then show ?thesis by (simp add: Bullet_update_expired)
  next
    case False
    with a show ?thesis by (simp add: Bullet_update_miss)
  qed
  then show "fst (Bullet_update dt inWorld pHit cHit w) = None"
    and "clients (snd (Bullet_update dt inWorld pHit cHit w)) = clients w"
    and "constructs (snd (Bullet_update dt inWorld pHit cHit w)) = constructs w"
    by auto
next
  show "expired inWorld (Bullet_advance dt (bullet w)) \<or>
    (\<exists>i. first_at (player_eligible pHit (Bullet_advance dt (bullet w)))
           (Hashmap_values (clients w)) i) \<or>
    (\<forall>p\<in>set (Hashmap_values (clients w)).
        \<not> player_eligible pHit (Bullet_advance dt (bullet w)) p) \<and>
    (\<exists>i. first_at (construct_eligible cHit (Bullet_advance dt (bullet w))) (constructs w) i) \<or>
    (\<forall>p\<in>set (Hashmap_values (clients w)).
        \<not> player_eligible pHit (Bullet_advance dt (bullet w)) p) \<and>
    (\<forall>c\<in>set (constructs w).
        \<not> construct_eligible cHit (Bullet_advance dt (bullet w)) c)"
    using first_at_exists [of "Hashmap_values (clients w)"
        "player_eligible pHit (Bullet_advance dt (bullet w))"]
      first_at_exists [of "constructs w"
        "construct_eligible cHit (Bullet_advance dt (bullet w))"]
    by blast
qed

theorem at_most_one_target_players_first_witness:
  "\<not> expired square_world (Bullet_advance 16 bullet_A) \<and>
   first_at (player_eligible hit_all (Bullet_advance 16 bullet_A))
     (Hashmap_values [(''A'', player_A), (''B'', player_B), (''C'', player_C)]) 1 \<and>
   construct_eligible hit_all (Bullet_advance 16 bullet_A) turret_B \<and>
   constructs (snd (Bullet_update 16 square_world hit_all hit_all
     \<lparr>bullet = bullet_A, clients = [(''A'', player_A), (''B'', player_B), (''C'', player_C)],
      constructs = [turret_B, wall_A]\<rparr>)) = [turret_B, wall_A] \<and>
   healths_of (clients (snd (Bullet_update 16 square_world hit_all hit_all
     \<lparr>bullet = bullet_A, clients = [(''A'', player_A), (''B'', player_B), (''C'', player_C)],
      constructs = [turret_B, wall_A]\<rparr>))) = [10, 0, 2] \<and>
   first_at (construct_eligible hit_all (Bullet_advance 16 bullet_A))
     [turret_A, turret_B, wall_A] 1 \<and>
   clients (snd (Bullet_update 16 square_world hit_all hit_all
     \<lparr>bullet = bullet_A, clients = [(''A'', player_A)],
      constructs = [turret_A, turret_B, wall_A]\<rparr>)) = [(''A'', player_A)] \<and>
   constructs (snd (Bullet_update 16 square_world hit_all hit_all
     \<lparr>bullet = bullet_A, clients = [(''A'', player_A)],
      constructs = [turret_A, turret_B, wall_A]\<rparr>)) =
     [turret_A, turret_B\<lparr>construct_health := 5\<rparr>, wall_A]"
proof -
  let ?w1 = "\<lparr>bullet = bullet_A,
      clients = [(''A'', player_A), (''B'', player_B), (''C'', player_C)],
      constructs = [turret_B, wall_A]\<rparr>"
  let ?w2 = "\<lparr>bullet = bullet_A, clients = [(''A'', player_A)],
      constructs = [turret_A, turret_B, wall_A]\<rparr>"
  let ?u1 = "Bullet_update 16 square_world hit_all hit_all ?w1"
  let ?u2 = "Bullet_update 16 square_world hit_all hit_all ?w2"
  have ne: "\<not> expired square_world (Bullet_advance 16 bullet_A)"
    by (simp add: expired_def Bullet_advance_def Entity_update_def Let_def scene_defs
        VELOCITY_MAGNITUDE_def MAX_TRAVEL_DISTANCE_def)
  have src: "source bullet_A = ''A''" "damage bullet_A = 1"
    by (simp_all add: scene_defs)
  have f1: "first_at (player_eligible hit_all (Bullet_advance 16 bullet_A))
      (Hashmap_values [(''A'', player_A), (''B'', player_B), (''C'', player_C)]) 1"
    by (simp add: first_at_def player_eligible_def Hashmap_values_def hit_all_def src
        player_A_def player_B_def)
  have tb: "construct_eligible hit_all (Bullet_advance 16 bullet_A) turret_B"
    by (simp add: construct_eligible_def hit_all_def src turret_B_def)
  have np: "\<forall>p\<in>set (Hashmap_values [(''A'', player_A)]).
      \<not> player_eligible hit_all (Bullet_advance 16 bullet_A) p"
    by (simp add: player_eligible_def Hashmap_values_def src player_A_def)
  have f2: "first_at (construct_eligible hit_all (Bullet_advance 16 bullet_A))
      [turret_A, turret_B, wall_A] 1"
    by (simp add: first_at_def construct_eligible_def hit_all_def src
        turret_A_def turret_B_def WALL_def)
  have h: "healths_of [(''A'', player_A), (''B'', player_B), (''C'', player_C)] = [10, 1, 2]"
    by (simp add: healths_of_def player_A_def player_B_def player_C_def)
  have a1: "\<not> expired square_world (Bullet_advance 16 (bullet ?w1)) \<and>
      first_at (player_eligible hit_all (Bullet_advance 16 (bullet ?w1)))
        (Hashmap_values (clients ?w1)) 1"
    using ne f1 by simp
  have a2: "\<not> expired square_world (Bullet_advance 16 (bullet ?w2)) \<and>
      (\<forall>p\<in>set (Hashmap_values (clients ?w2)).
          \<not> player_eligible hit_all (Bullet_advance 16 (bullet ?w2)) p) \<and>
      first_at (construct_eligible hit_all (Bullet_advance 16 (bullet ?w2))) (constructs ?w2) 1"
    using ne np f2 by simp
  note t1 = at_most_one_target_players_first
      [of square_world 16 ?w1 hit_all 1 hit_all, THEN conjunct1, rule_format, OF a1]
  note t2 = at_most_one_target_players_first
      [of square_world 16 ?w2 hit_all _ hit_all 1, THEN conjunct2, THEN conjunct1,
        rule_format, OF a2]
  from t1 have c1: "constructs (snd ?u1) = [turret_B, wall_A]"
    by simp
  from t1 have c2: "healths_of (clients (snd ?u1)) = [10, 0, 2]"
    by (simp add: h src)
  from t2 have c3: "clients (snd ?u2) = [(''A'', player_A)]"
    by simp
  from t2 have c4: "constructs (snd ?u2) =
      [turret_A, turret_B\<lparr>construct_health := 5\<rparr>, wall_A]"
    by (simp add: src Construct_damage_def turret_B_def)
  from ne f1 tb c1 c2 f2 c3 c4 show ?thesis by blast
qed

text \<open>
  C4, as the claim states it, fails. The bullet of \<open>'A'\<close> overlaps a turret of \<open>'B'\<close>
  and, behind it in the array, a wall of \<open>'A'\<close>; the termination check passes and no
  player is hit. The wall collides and is a wall, yet only the turret is damaged: the
  update returns at the first construct it hits. And when the termination check trips,
  no player is hit either, and a colliding turret of \<open>'B'\<close> is not damaged.
\<close>

theorem later_eligible_construct_is_not_hit:
  "\<not> expired square_world (Bullet_advance 16 bullet_A) \<and>
   \<not> player_eligible hit_all (Bullet_advance 16 bullet_A) player_A \<and>
   hit_all wall_A (Bullet_advance 16 bullet_A) \<and>
   construct_type wall_A = WALL \<and>
   owner wall_A = source bullet_A \<and>
   Bullet_update 16 square_world hit_all hit_all
     \<lparr>bullet = bullet_A, clients = [(''A'', player_A)], constructs = [turret_B, wall_A]\<rparr> =
   (None,
    \<lparr>bullet = \<lparr>x = 100, y = 432 / 5, vx = 0, vy = - (85 / 100), orientation = 0,
                hitboxSize = 4, source = ''A'', damage = 1, distanceTraveled = 68 / 5,
                shouldExist = False, updateTimeDifference = 16\<rparr>,
     clients = [(''A'', player_A)],
     constructs = [turret_B\<lparr>construct_health := 5\<rparr>, wall_A]\<rparr>) \<and>
   hit_all turret_B (Bullet_advance 16 (bullet_A\<lparr>distanceTraveled := 990\<rparr>)) \<and>
   owner turret_B \<noteq> source (bullet_A\<lparr>distanceTraveled := 990\<rparr>) \<and>
   clients (snd (Bullet_update 16 square_world hit_all hit_all
     \<lparr>bullet = bullet_A\<lparr>distanceTraveled := 990\<rparr>, clients = [(''A'', player_A)],
      constructs = [turret_B]\<rparr>)) = [(''A'', player_A)] \<and>
   constructs (snd (Bullet_update 16 square_world hit_all hit_all
     \<lparr>bullet = bullet_A\<lparr>distanceTraveled := 990\<rparr>, clients = [(''A'', player_A)],
      constructs = [turret_B]\<rparr>)) = [turret_B]"
  by (simp add: update_defs scene_defs expired_def player_eligible_def WALL_def)

text \<open>
  C4, amended: when the termination check passes and no player is hit, a construct is
  damaged by the bullet (and the bullet marked dead) if and only if it is the first
  construct, in array order, that collides with the bullet and either is owned by
  another identity than the bullet's source or is a wall. Every other construct is left
  as it is; in particular a construct of the shooter that is not a wall is never
  damaged, whatever the collision test answers for it, while a colliding wall takes the
  damage, also when the shooter owns it, if no construct before it satisfies the
  condition.
\<close>

theorem construct_is_hit_iff_first_eligible:
  "\<not> expired inWorld (Bullet_advance dt (bullet w)) \<Longrightarrow>
   \<forall>p\<in>set (Hashmap_values (clients w)).
      \<not> player_eligible pHit (Bullet_advance dt (bullet w)) p \<Longrightarrow>
   fst (Bullet_update dt inWorld pHit cHit w) = None \<and>
   clients (snd (Bullet_update dt inWorld pHit cHit w)) = clients w \<and>
   length (constructs (snd (Bullet_update dt inWorld pHit cHit w))) = length (constructs w) \<and>
   (\<forall>i<length (constructs w).
      (first_at (construct_eligible cHit (Bullet_advance dt (bullet w))) (constructs w) i \<longrightarrow>
         constructs (snd (Bullet_update dt inWorld pHit cHit w)) ! i =
           Construct_damage (damage (bullet w)) (constructs w ! i) \<and>
         \<not> shouldExist (bullet (snd (Bullet_update dt inWorld pHit cHit w)))) \<and>
      (\<not> first_at (construct_eligible cHit (Bullet_advance dt (bullet w))) (constructs w) i \<longrightarrow>
         constructs (snd (Bullet_update dt inWorld pHit cHit w)) ! i = constructs w ! i)) \<and>
   (damage (bullet w) \<noteq> 0 \<longrightarrow>
      (\<forall>i<length (constructs w).
         construct_health (constructs (snd (Bullet_update dt inWorld pHit cHit w)) ! i) \<noteq>
           construct_health (constructs w ! i) \<longleftrightarrow>
         first_at (construct_eligible cHit (Bullet_advance dt (bullet w))) (constructs w) i)) \<and>
   (shouldExist (bullet w) \<longrightarrow>
      (\<not> shouldExist (bullet (snd (Bullet_update dt inWorld pHit cHit w))) \<longleftrightarrow>
       (\<exists>i. first_at (construct_eligible cHit (Bullet_advance dt (bullet w))) (constructs w) i))) \<and>
   (\<forall>i<length (constructs w).
      owner (constructs w ! i) = source (bullet w) \<and> construct_type (constructs w ! i) \<noteq> WALL \<longrightarrow>
        constructs (snd (Bullet_update dt inWorld pHit cHit w)) ! i = constructs w ! i) \<and>
   (\<forall>i<length (constructs w).
      construct_type (constructs w ! i) = WALL \<and>
      cHit (constructs w ! i) (Bullet_advance dt (bullet w)) \<and>
      (\<forall>k<i. \<not> construct_eligible cHit (Bullet_advance dt (bullet w)) (constructs w ! k)) \<longrightarrow>
        constructs (snd (Bullet_update dt inWorld pHit cHit w)) ! i =
          Construct_damage (damage (bullet w)) (constructs w ! i))"
proof -
  assume ne: "\<not> expired inWorld (Bullet_advance dt (bullet w))"
    and np: "\<forall>p\<in>set (Hashmap_values (clients w)).
      \<not> player_eligible pHit (Bullet_advance dt (bullet w)) p"
  let ?b = "Bullet_advance dt (bullet w)"
  let ?u = "Bullet_update dt inWorld pHit cHit w"
  let ?Q = "construct_eligible cHit ?b"
  have hit: "?u = construct_hit (at_check dt w) i"
    if "first_at ?Q (constructs w) i" for i
    by (rule Bullet_update_construct [OF ne np that])
  have miss: "?u = (None, at_check dt w)"
    if "\<forall>c\<in>set (constructs w). \<not> ?Q c"
    by (rule Bullet_update_miss [OF ne np that])
  have some: "(\<exists>i. first_at ?Q (constructs w) i) \<or> (\<forall>c\<in>set (constructs w). \<not> ?Q c)"
    using first_at_exists [of "constructs w" ?Q] by blast
  have basics: "fst ?u = None \<and> clients (snd ?u) = clients w \<and>
      length (constructs (snd ?u)) = length (constructs w)"
    using some hit miss by auto
  have taken: "constructs (snd ?u) ! i = Construct_damage (damage (bullet w)) (constructs w ! i) \<and>
      \<not> shouldExist (bullet (snd ?u))"
    if "i < length (constructs w)" "first_at ?Q (constructs w) i" for i
    using hit [OF that(2)] that(1) by simp
  have left: "constructs (snd ?u) ! i = constructs w ! i"
    if "\<not> first_at ?Q (constructs w) i" for i
    using some
  proof
    assume "\<exists>k. first_at ?Q (constructs w) k"
    then obtain k where k: "first_at ?Q (constructs w) k"
      by blast
    with that have "i \<noteq> k" by auto
    with hit [OF k] show ?thesis by simp
  next
    assume "\<forall>c\<in>set (constructs w). \<not> ?Q c"
    from miss [OF this] show ?thesis by simp
  qed
  have health: "construct_health (constructs (snd ?u) ! i) \<noteq> construct_health (constructs w ! i)
      \<longleftrightarrow> first_at ?Q (constructs w) i"
    if "damage (bullet w) \<noteq> 0" "i < length (constructs w)" for i
  proof (cases "first_at ?Q (constructs w) i")
    case True
    with taken [OF that(2)] that(1) show ?thesis
      by (simp add: Construct_damage_def)
  next
    case False
    with left [OF False] show ?thesis by simp
  qed
  have dead: "\<not> shouldExist (bullet (snd ?u)) \<longleftrightarrow> (\<exists>i. first_at ?Q (constructs w) i)"
    if "shouldExist (bullet w)"
    using some
  proof
    assume "\<exists>k. first_at ?Q (constructs w) k"
    then obtain k where k: "first_at ?Q (constructs w) k"
      by blast
    with hit [OF k] show ?thesis by auto
  next
    assume none: "\<forall>c\<in>set (constructs w). \<not> ?Q c"
    then have "\<not> (\<exists>i. first_at ?Q (constructs w) i)"
      using first_at_none [of ?Q "constructs w"] by blast
    with miss [OF none] that show ?thesis by simp
  qed
  have own: "constructs (snd ?u) ! i = constructs w ! i"
    if "i < length (constructs w)"
      "owner (constructs w ! i) = source (bullet w) \<and> construct_type (constructs w ! i) \<noteq> WALL"
    for i
  proof -
    from that(2) have "\<not> ?Q (constructs w ! i)"
      by (simp add: construct_eligible_def)
    then have "\<not> first_at ?Q (constructs w) i"
      by (simp add: first_at_iff)
    then show ?thesis by (rule left)
  qed
  have wall: "constructs (snd ?u) ! i = Construct_damage (damage (bullet w)) (constructs w ! i)"
    if "i < length (constructs w)"
      "construct_type (constructs w ! i) = WALL \<and> cHit (constructs w ! i) ?b \<and>
       (\<forall>k<i. \<not> ?Q (constructs w ! k))"
    for i
  proof -
    from that have "first_at ?Q (constructs w) i"
      by (simp add: first_at_iff construct_eligible_def)
    with taken [OF that(1)] show ?thesis by simp
  qed
  from basics taken left health dead own wall show ?thesis
    by blast
qed

theorem construct_is_hit_iff_first_eligible_witness:
  "\<not> expired square_world (Bullet_advance 16 bullet_A) \<and>
   owner wall_A = source bullet_A \<and>
   owner turret_A = source bullet_A \<and>
   first_at (construct_eligible hit_all (Bullet_advance 16 bullet_A)) [turret_A, wall_A] 1 \<and>
   \<not> first_at (construct_eligible hit_all (Bullet_advance 16 bullet_A)) [turret_A, wall_A] 0 \<and>
   constructs (snd (Bullet_update 16 square_world hit_all hit_all
     \<lparr>bullet = bullet_A, clients = [(''A'', player_A)],
      constructs = [turret_A, wall_A]\<rparr>)) ! 0 = turret_A \<and>
   constructs (snd (Bullet_update 16 square_world hit_all hit_all
     \<lparr>bullet = bullet_A, clients = [(''A'', player_A)],
      constructs = [turret_A, wall_A]\<rparr>)) ! 1 = wall_A\<lparr>construct_health := 5\<rparr> \<and>
   \<not> shouldExist (bullet (snd (Bullet_update 16 square_world hit_all hit_all
     \<lparr>bullet = bullet_A, clients = [(''A'', player_A)],
      constructs = [turret_A, wall_A]\<rparr>))) \<and>
   first_at (construct_eligible hit_all (Bullet_advance 16 bullet_A)) [turret_B, wall_A] 0 \<and>
   \<not> first_at (construct_eligible hit_all (Bullet_advance 16 bullet_A)) [turret_B, wall_A] 1 \<and>
   constructs (snd (Bullet_update 16 square_world hit_all hit_all
     \<lparr>bullet = bullet_A, clients = [(''A'', player_A)],
      constructs = [turret_B, wall_A]\<rparr>)) ! 0 = turret_B\<lparr>construct_health := 5\<rparr> \<and>
   constructs (snd (Bullet_update 16 square_world hit_all hit_all
     \<lparr>bullet = bullet_A, clients = [(''A'', player_A)],
      constructs = [turret_B, wall_A]\<rparr>)) ! 1 = wall_A"
proof -
  let ?w1 = "\<lparr>bullet = bullet_A, clients = [(''A'', player_A)],
      constructs = [turret_A, wall_A]\<rparr>"
  let ?w2 = "\<lparr>bullet = bullet_A, clients = [(''A'', player_A)],
      constructs = [turret_B, wall_A]\<rparr>"
  let ?u1 = "Bullet_update 16 square_world hit_all hit_all ?w1"
  let ?u2 = "Bullet_update 16 square_world hit_all hit_all ?w2"
  let ?b = "Bullet_advance 16 bullet_A"
  have ne: "\<not> expired square_world ?b"
    by (simp add: expired_def Bullet_advance_def Entity_update_def Let_def scene_defs
        VELOCITY_MAGNITUDE_def MAX_TRAVEL_DISTANCE_def)
  have src: "source bullet_A = ''A''" "damage bullet_A = 1"
    by (simp_all add: scene_defs)
  have own: "owner wall_A = source bullet_A" "owner turret_A = source bullet_A"
    by (simp_all add: src wall_A_def turret_A_def)
  have np: "\<forall>p\<in>set (Hashmap_values [(''A'', player_A)]). \<not> player_eligible hit_all ?b p"
    by (simp add: player_eligible_def Hashmap_values_def src player_A_def)
  have wa: "construct_eligible hit_all ?b wall_A"
    by (simp add: construct_eligible_def hit_all_def wall_A_def)
  have ta: "\<not> construct_eligible hit_all ?b turret_A"
    by (simp add: construct_eligible_def src turret_A_def WALL_def)
  have tb: "construct_eligible hit_all ?b turret_B"
    by (simp add: construct_eligible_def hit_all_def src turret_B_def)
  have f1: "first_at (construct_eligible hit_all ?b) [turret_A, wall_A] 1"
    and n1: "\<not> first_at (construct_eligible hit_all ?b) [turret_A, wall_A] 0"
    and f2: "first_at (construct_eligible hit_all ?b) [turret_B, wall_A] 0"
    and n2: "\<not> first_at (construct_eligible hit_all ?b) [turret_B, wall_A] 1"
    using wa ta tb by (simp_all add: first_at_def)
  have ne1: "\<not> expired square_world (Bullet_advance 16 (bullet ?w1))"
    and ne2: "\<not> expired square_world (Bullet_advance 16 (bullet ?w2))"
    using ne by simp_all
  have np1: "\<forall>p\<in>set (Hashmap_values (clients ?w1)).
      \<not> player_eligible hit_all (Bullet_advance 16 (bullet ?w1)) p"
    and np2: "\<forall>p\<in>set (Hashmap_values (clients ?w2)).
      \<not> player_eligible hit_all (Bullet_advance 16 (bullet ?w2)) p"
    using np by simp_all
  note t1 = construct_is_hit_iff_first_eligible [OF ne1 np1, of hit_all,
      THEN conjunct2, THEN conjunct2, THEN conjunct2, THEN conjunct1, rule_format]
  note t2 = construct_is_hit_iff_first_eligible [OF ne2 np2, of hit_all,
      THEN conjunct2, THEN conjunct2, THEN conjunct2, THEN conjunct1, rule_format]
  have g1: "first_at (construct_eligible hit_all (Bullet_advance 16 (bullet ?w1)))
        (constructs ?w1) 1"
    and m1: "\<not> first_at (construct_eligible hit_all (Bullet_advance 16 (bullet ?w1)))
        (constructs ?w1) 0"
    and g2: "first_at (construct_eligible hit_all (Bullet_advance 16 (bullet ?w2)))
        (constructs ?w2) 0"
    and m2: "\<not> first_at (construct_eligible hit_all (Bullet_advance 16 (bullet ?w2)))
        (constructs ?w2) 1"
    using f1 n1 f2 n2 by simp_all
  have l1: "1 < length (constructs ?w1)" "0 < length (constructs ?w1)"
    and l2: "1 < length (constructs ?w2)" "0 < length (constructs ?w2)"
    by simp_all
  from t1 [OF l1(1), THEN conjunct1, rule_format, OF g1]
  have c1: "constructs (snd ?u1) ! 1 = wall_A\<lparr>construct_health := 5\<rparr>"
    and c2: "\<not> shouldExist (bullet (snd ?u1))"
    by (simp_all add: src Construct_damage_def wall_A_def)
  from t1 [OF l1(2), THEN conjunct2, rule_format, OF m1]
  have c3: "constructs (snd ?u1) ! 0 = turret_A"
    by simp
  from t2 [OF l2(2), THEN conjunct1, rule_format, OF g2]
  have c4: "constructs (snd ?u2) ! 0 = turret_B\<lparr>construct_health := 5\<rparr>"
    by (simp add: src Construct_damage_def turret_B_def)
  from t2 [OF l2(1), THEN conjunct2, rule_format, OF m2]
  have c5: "constructs (snd ?u2) ! 1 = wall_A"
    by simp
  from ne own f1 n1 c3 c1 c2 f2 n2 c4 c5 show ?thesis by blast
qed

text \<open>
  C5: the bullet that \<open>Bullet.create(x, y, d, source)\<close> returns has
  \<open>vx = S * cos (d - pi / 2)\<close> and \<open>vy = S * sin (d - pi / 2)\<close> for the fixed
  \<open>S = VELOCITY_MAGNITUDE = 0.85\<close>, so the magnitude of its velocity is \<open>S\<close>
  whatever the direction. (Numbers are reals here.)
\<close>

theorem create_velocity_components:
  "vx (Bullet_create x0 y0 d s) = VELOCITY_MAGNITUDE * cos (d - pi / 2) \<and>
   vy (Bullet_create x0 y0 d s) = VELOCITY_MAGNITUDE * sin (d - pi / 2) \<and>
   VELOCITY_MAGNITUDE = 85 / 100 \<and>
   sqrt ((vx (Bullet_create x0 y0 d s))\<^sup>2 + (vy (Bullet_create x0 y0 d s))\<^sup>2) =
     VELOCITY_MAGNITUDE"
proof -
  have v: "vx (Bullet_create x0 y0 d s) = VELOCITY_MAGNITUDE * cos (d - pi / 2)"
      "vy (Bullet_create x0 y0 d s) = VELOCITY_MAGNITUDE * sin (d - pi / 2)"
    by (simp_all add: Bullet_create_def Bullet_def Let_def)
  have "(VELOCITY_MAGNITUDE * cos (d - pi / 2))\<^sup>2 + (VELOCITY_MAGNITUDE * sin (d - pi / 2))\<^sup>2
      = VELOCITY_MAGNITUDE\<^sup>2 * ((cos (d - pi / 2))\<^sup>2 + (sin (d - pi / 2))\<^sup>2)"
    by (simp only: power_mult_distrib distrib_left)
  also have "\<dots> = VELOCITY_MAGNITUDE\<^sup>2"
    by (simp only: cos_squared_eq [symmetric] sin_cos_squared_add2 mult_1_right)
  finally have "sqrt ((VELOCITY_MAGNITUDE * cos (d - pi / 2))\<^sup>2 +
      (VELOCITY_MAGNITUDE * sin (d - pi / 2))\<^sup>2) = \<bar>VELOCITY_MAGNITUDE\<bar>"
    by simp
  moreover have "\<bar>VELOCITY_MAGNITUDE\<bar> = VELOCITY_MAGNITUDE"
    by (simp add: VELOCITY_MAGNITUDE_def)
  ultimately have "sqrt ((vx (Bullet_create x0 y0 d s))\<^sup>2 +
      (vy (Bullet_create x0 y0 d s))\<^sup>2) = VELOCITY_MAGNITUDE"
    by (simp only: v)
  moreover have "VELOCITY_MAGNITUDE = 85 / 100"
    by (simp only: VELOCITY_MAGNITUDE_def)
  ultimately show ?thesis
    using v by blast
qed

theorem create_velocity_components_witness:
  "vx (Bullet_create 100 100 0 ''A'') = 0 \<and>
   vy (Bullet_create 100 100 0 ''A'') = - (85 / 100) \<and>
   vx (Bullet_create 100 100 (pi / 2) ''A'') = 85 / 100 \<and>
   vy (Bullet_create 100 100 (pi / 2) ''A'') = 0 \<and>
   vx (Bullet_create 100 100 pi ''A'') = 0 \<and>
   vy (Bullet_create 100 100 pi ''A'') = 85 / 100 \<and>
   vx (Bullet_create 100 100 (3 * pi / 2) ''A'') = - (85 / 100) \<and>
   vy (Bullet_create 100 100 (3 * pi / 2) ''A'') = 0"
proof -
  have a: "pi - pi / 2 = pi / 2" "3 * pi / 2 - pi / 2 = pi"
    by simp_all
  show ?thesis
    using create_velocity_components [of 100 100 0 "''A''"]
      create_velocity_components [of 100 100 "pi / 2" "''A''"]
      create_velocity_components [of 100 100 pi "''A''"]
      create_velocity_components [of 100 100 "3 * pi / 2" "''A''"]
    by (simp add: a)
qed

text \<open>
  C6: when, at the termination check, the distance travelled exceeds the maximum or the
  position is outside the world, the update raises no fault, marks the bullet dead and
  returns at once: the registry (every player's health and kill counter) and the
  constructs are exactly as they were.
\<close>

theorem expired_update_has_no_collision_effects:
  "distanceTraveled (Bullet_advance dt (bullet w)) > MAX_TRAVEL_DISTANCE \<or>
   \<not> inWorld (x (Bullet_advance dt (bullet w))) (y (Bullet_advance dt (bullet w))) \<Longrightarrow>
   fst (Bullet_update dt inWorld pHit cHit w) = None \<and>
   bullet (snd (Bullet_update dt inWorld pHit cHit w)) =
     (Bullet_advance dt (bullet w))\<lparr>shouldExist := False\<rparr> \<and>
   \<not> shouldExist (bullet (snd (Bullet_update dt inWorld pHit cHit w))) \<and>
   clients (snd (Bullet_update dt inWorld pHit cHit w)) = clients w \<and>
   constructs (snd (Bullet_update dt inWorld pHit cHit w)) = constructs w"
proof -
  assume "distanceTraveled (Bullet_advance dt (bullet w)) > MAX_TRAVEL_DISTANCE \<or>
   \<not> inWorld (x (Bullet_advance dt (bullet w))) (y (Bullet_advance dt (bullet w)))"
  then have "expired inWorld (Bullet_advance dt (bullet w))"
    by (simp add: expired_def)
  then show ?thesis by (simp add: Bullet_update_expired)
qed

theorem expired_update_has_no_collision_effects_witness:
  "distanceTraveled (Bullet_advance 16 (bullet_A\<lparr>distanceTraveled := 990\<rparr>)) > MAX_TRAVEL_DISTANCE \<and>
   fst (Bullet_update 16 square_world hit_all hit_all
     \<lparr>bullet = bullet_A\<lparr>distanceTraveled := 990\<rparr>, clients = [(''B'', player_B)],
      constructs = [turret_B]\<rparr>) = None \<and>
   \<not> shouldExist (bullet (snd (Bullet_update 16 square_world hit_all hit_all
     \<lparr>bullet = bullet_A\<lparr>distanceTraveled := 990\<rparr>, clients = [(''B'', player_B)],
      constructs = [turret_B]\<rparr>))) \<and>
   clients (snd (Bullet_update 16 square_world hit_all hit_all
     \<lparr>bullet = bullet_A\<lparr>distanceTraveled := 990\<rparr>, clients = [(''B'', player_B)],
      constructs = [turret_B]\<rparr>)) = [(''B'', player_B)] \<and>
   constructs (snd (Bullet_update 16 square_world hit_all hit_all
     \<lparr>bullet = bullet_A\<lparr>distanceTraveled := 990\<rparr>, clients = [(''B'', player_B)],
      constructs = [turret_B]\<rparr>)) = [turret_B] \<and>
   \<not> square_world (x (Bullet_advance 16 (bullet_A\<lparr>y := 5\<rparr>)))
       (y (Bullet_advance 16 (bullet_A\<lparr>y := 5\<rparr>))) \<and>
   \<not> shouldExist (bullet (snd (Bullet_update 16 square_world hit_all hit_all
     \<lparr>bullet = bullet_A\<lparr>y := 5\<rparr>, clients = [(''B'', player_B)],
      constructs = [turret_B]\<rparr>))) \<and>
   clients (snd (Bullet_update 16 square_world hit_all hit_all
     \<lparr>bullet = bullet_A\<lparr>y := 5\<rparr>, clients = [(''B'', player_B)],
      constructs = [turret_B]\<rparr>)) = [(''B'', player_B)] \<and>
   constructs (snd (Bullet_update 16 square_world hit_all hit_all
     \<lparr>bullet = bullet_A\<lparr>y := 5\<rparr>, clients = [(''B'', player_B)],
      constructs = [turret_B]\<rparr>)) = [turret_B]"
proof -
  have far: "distanceTraveled (Bullet_advance 16 (bullet_A\<lparr>distanceTraveled := 990\<rparr>))
             > MAX_TRAVEL_DISTANCE"
    by (simp add: Bullet_advance_def Entity_update_def Let_def VELOCITY_MAGNITUDE_def
        MAX_TRAVEL_DISTANCE_def)
  have out: "\<not> square_world (x (Bullet_advance 16 (bullet_A\<lparr>y := 5\<rparr>)))
       (y (Bullet_advance 16 (bullet_A\<lparr>y := 5\<rparr>)))"
    by (simp add: Bullet_advance_def Entity_update_def Let_def scene_defs)
  show ?thesis
    using far out
      expired_update_has_no_collision_effects
      [of 16 "\<lparr>bullet = bullet_A\<lparr>distanceTraveled := 990\<rparr>, clients = [(''B'', player_B)],
              constructs = [turret_B]\<rparr>" square_world hit_all hit_all]
      expired_update_has_no_collision_effects
      [of 16 "\<lparr>bullet = bullet_A\<lparr>y := 5\<rparr>, clients = [(''B'', player_B)],
              constructs = [turret_B]\<rparr>" square_world hit_all hit_all]
    by simp
qed

text \<open>
  C7: when an update damages a player (the termination check passes and \<open>j\<close> is the
  first player that may be hit) and that player is then dead, the kill counter of the
  shooter, the player registered under the bullet's source, goes up by exactly 1 and
  every other kill counter of the registry is unchanged; when the damaged player
  survives, no kill counter of the registry changes. Neither case raises a fault.
\<close>

theorem kill_is_credited_once:
  "\<not> expired inWorld (Bullet_advance dt (bullet w)) \<Longrightarrow>
   first_at (player_eligible pHit (Bullet_advance dt (bullet w))) (Hashmap_values (clients w)) j \<Longrightarrow>
   (Player_isDead (Player_damage (damage (bullet w)) (Hashmap_values (clients w) ! j)) \<and>
    Hashmap_get (clients w) (source (bullet w)) = Some shooter \<longrightarrow>
      fst (Bullet_update dt inWorld pHit cHit w) = None \<and>
      map_option kills
        (Hashmap_get (clients (snd (Bullet_update dt inWorld pHit cHit w))) (source (bullet w))) =
        Some (kills shooter + 1) \<and>
      (\<exists>m<length (clients w). fst (clients w ! m) = source (bullet w) \<and>
         kills_of (clients (snd (Bullet_update dt inWorld pHit cHit w))) =
           (kills_of (clients w))[m := kills_of (clients w) ! m + 1])) \<and>
   (\<not> Player_isDead (Player_damage (damage (bullet w)) (Hashmap_values (clients w) ! j)) \<longrightarrow>
      fst (Bullet_update dt inWorld pHit cHit w) = None \<and>
      kills_of (clients (snd (Bullet_update dt inWorld pHit cHit w))) = kills_of (clients w))"
proof -
  assume ne: "\<not> expired inWorld (Bullet_advance dt (bullet w))"
    and j: "first_at (player_eligible pHit (Bullet_advance dt (bullet w)))
      (Hashmap_values (clients w)) j"
  let ?d = "damage (bullet w)"
  let ?s = "source (bullet w)"
  let ?cl1 = "(clients w)[j := (fst (clients w ! j), Player_damage ?d (snd (clients w ! j)))]"
  have u: "Bullet_update dt inWorld pHit cHit w = player_hit (at_check dt w) j"
    by (rule Bullet_update_player [OF ne j])
  from j have jl: "j < length (clients w)"
    by (simp add: first_at_iff Hashmap_values_def)
  then have v: "Hashmap_values (clients w) ! j = snd (clients w ! j)"
    by (simp add: Hashmap_values_def)
  show ?thesis
  proof (intro conjI impI)
    assume "Player_isDead (Player_damage ?d (Hashmap_values (clients w) ! j)) \<and>
      Hashmap_get (clients w) ?s = Some shooter"
    then have dead: "Player_isDead (Player_damage ?d (snd (clients w ! j)))"
      and sh: "Hashmap_get (clients w) ?s = Some shooter"
      by (simp_all add: v)
    have r: "Bullet_update dt inWorld pHit cHit w =
        (None, (at_check dt w)\<lparr>clients := kills_increment ?s ?cl1,
           bullet := (Bullet_advance dt (bullet w))\<lparr>shouldExist := False\<rparr>\<rparr>)"
      using player_hit_kill [of "at_check dt w" j shooter] dead jl sh by (simp add: u)
    from r show "fst (Bullet_update dt inWorld pHit cHit w) = None" by simp
    have k1: "map_option kills (Hashmap_get ?cl1 ?s) = Some (kills shooter)"
      by (simp add: damaged_get_kills sh)
    then obtain s1 where s1: "Hashmap_get ?cl1 ?s = Some s1" "kills s1 = kills shooter"
      by auto
    from r s1 show "map_option kills
        (Hashmap_get (clients (snd (Bullet_update dt inWorld pHit cHit w))) ?s) =
        Some (kills shooter + 1)"
      by (simp add: get_kills_increment)
    from kills_of_kills_increment [OF s1(1)] obtain m where m: "m < length ?cl1"
        "fst (?cl1 ! m) = ?s" "snd (?cl1 ! m) = s1"
        "kills_of (kills_increment ?s ?cl1) = (kills_of ?cl1)[m := kills s1 + 1]"
      by blast
    have keys: "map fst ?cl1 = map fst (clients w)"
      by (rule damaged_keys)
    from m(1) have ml: "m < length (clients w)" by simp
    have "map fst ?cl1 ! m = map fst (clients w) ! m"
      by (simp only: keys)
    with m(1,2) ml have mk: "fst (clients w ! m) = ?s"
      by (simp del: damaged_keys)
    have "kills_of ?cl1 ! m = kills_of (clients w) ! m"
      by simp
    with m(1,3) have "kills s1 = kills_of (clients w) ! m"
      by (simp add: kills_of_def del: damaged_kills)
    with m(4) r have "kills_of (clients (snd (Bullet_update dt inWorld pHit cHit w))) =
        (kills_of (clients w))[m := kills_of (clients w) ! m + 1]"
      by simp
    with ml mk show "\<exists>m<length (clients w). fst (clients w ! m) = ?s \<and>
         kills_of (clients (snd (Bullet_update dt inWorld pHit cHit w))) =
           (kills_of (clients w))[m := kills_of (clients w) ! m + 1]"
      by blast
  next
    assume "\<not> Player_isDead (Player_damage ?d (Hashmap_values (clients w) ! j))"
    then have alive: "\<not> Player_isDead (Player_damage ?d (snd (clients w ! j)))"
      by (simp add: v)
    have r: "Bullet_update dt inWorld pHit cHit w =
        (None, (at_check dt w)\<lparr>clients := ?cl1,
           bullet := (Bullet_advance dt (bullet w))\<lparr>shouldExist := False\<rparr>\<rparr>)"
      using player_hit_survivor [of "at_check dt w" j] alive jl by (simp add: u)
    from r show "fst (Bullet_update dt inWorld pHit cHit w) = None" by simp
    from r show "kills_of (clients (snd (Bullet_update dt inWorld pHit cHit w))) =
        kills_of (clients w)"
      by simp
  qed
qed

theorem kill_is_credited_once_witness:
  "\<not> expired square_world (Bullet_advance 16 bullet_A) \<and>
   first_at (player_eligible hit_all (Bullet_advance 16 bullet_A))
     (Hashmap_values [(''A'', player_A), (''B'', player_B), (''C'', player_C)]) 1 \<and>
   Player_isDead (Player_damage (damage bullet_A) player_B) \<and>
   Hashmap_get [(''A'', player_A), (''B'', player_B), (''C'', player_C)] (source bullet_A) =
     Some player_A \<and>
   fst (Bullet_update 16 square_world hit_all hit_none
     \<lparr>bullet = bullet_A, clients = [(''A'', player_A), (''B'', player_B), (''C'', player_C)],
      constructs = []\<rparr>) = None \<and>
   map_option kills (Hashmap_get (clients (snd (Bullet_update 16 square_world hit_all hit_none
     \<lparr>bullet = bullet_A, clients = [(''A'', player_A), (''B'', player_B), (''C'', player_C)],
      constructs = []\<rparr>))) ''A'') = Some 1 \<and>
   kills_of (clients (snd (Bullet_update 16 square_world hit_all hit_none
     \<lparr>bullet = bullet_A, clients = [(''A'', player_A), (''B'', player_B), (''C'', player_C)],
      constructs = []\<rparr>))) = [1, 0, 5] \<and>
   first_at (player_eligible hit_all (Bullet_advance 16 bullet_A))
     (Hashmap_values [(''A'', player_A), (''C'', player_C)]) 1 \<and>
   \<not> Player_isDead (Player_damage (damage bullet_A) player_C) \<and>
   kills_of (clients (snd (Bullet_update 16 square_world hit_all hit_none
     \<lparr>bullet = bullet_A, clients = [(''A'', player_A), (''C'', player_C)],
      constructs = []\<rparr>))) = [0, 5]"
proof -
  let ?w1 = "\<lparr>bullet = bullet_A,
      clients = [(''A'', player_A), (''B'', player_B), (''C'', player_C)], constructs = []\<rparr>"
  let ?w2 = "\<lparr>bullet = bullet_A,
      clients = [(''A'', player_A), (''C'', player_C)], constructs = []\<rparr>"
  have ne: "\<not> expired square_world (Bullet_advance 16 bullet_A)"
    by (simp add: expired_def Bullet_advance_def Entity_update_def Let_def scene_defs
        VELOCITY_MAGNITUDE_def MAX_TRAVEL_DISTANCE_def)
  have src: "source bullet_A = ''A''" "damage bullet_A = 1"
    by (simp_all add: scene_defs)
  have f1: "first_at (player_eligible hit_all (Bullet_advance 16 bullet_A))
      (Hashmap_values [(''A'', player_A), (''B'', player_B), (''C'', player_C)]) 1"
    by (simp add: first_at_def player_eligible_def Hashmap_values_def hit_all_def src
        player_A_def player_B_def)
  have f2: "first_at (player_eligible hit_all (Bullet_advance 16 bullet_A))
      (Hashmap_values [(''A'', player_A), (''C'', player_C)]) 1"
    by (simp add: first_at_def player_eligible_def Hashmap_values_def hit_all_def src
        player_A_def player_C_def)
  have dead: "Player_isDead (Player_damage (damage bullet_A) player_B)"
    by (simp add: Player_isDead_def Player_damage_def src player_B_def)
  have alive: "\<not> Player_isDead (Player_damage (damage bullet_A) player_C)"
    by (simp add: Player_isDead_def Player_damage_def src player_C_def)
  have sh: "Hashmap_get [(''A'', player_A), (''B'', player_B), (''C'', player_C)]
      (source bullet_A) = Some player_A"
    by (simp add: Hashmap_get_def src)
  have k: "kills player_A = 0"
      "kills_of [(''A'', player_A), (''B'', player_B), (''C'', player_C)] = [0, 0, 5]"
      "kills_of [(''A'', player_A), (''C'', player_C)] = [0, 5]"
    by (simp_all add: kills_of_def player_A_def player_B_def player_C_def)
  let ?u1 = "Bullet_update 16 square_world hit_all hit_none ?w1"
  let ?u2 = "Bullet_update 16 square_world hit_all hit_none ?w2"
  have ne1: "\<not> expired square_world (Bullet_advance 16 (bullet ?w1))"
    and ne2: "\<not> expired square_world (Bullet_advance 16 (bullet ?w2))"
    using ne by simp_all
  have g1: "first_at (player_eligible hit_all (Bullet_advance 16 (bullet ?w1)))
      (Hashmap_values (clients ?w1)) 1"
    using f1 by simp
  have g2: "first_at (player_eligible hit_all (Bullet_advance 16 (bullet ?w2)))
      (Hashmap_values (clients ?w2)) 1"
    using f2 by simp
  have h1: "Player_isDead (Player_damage (damage (bullet ?w1)) (Hashmap_values (clients ?w1) ! 1)) \<and>
      Hashmap_get (clients ?w1) (source (bullet ?w1)) = Some player_A"
    using dead sh by (simp add: Hashmap_values_def)
  have h2: "\<not> Player_isDead (Player_damage (damage (bullet ?w2))
      (Hashmap_values (clients ?w2) ! 1))"
    using alive by (simp add: Hashmap_values_def)
  note t1 = kill_is_credited_once [OF ne1 g1, THEN conjunct1, rule_format, OF h1]
  note t2 = kill_is_credited_once [OF ne2 g2, THEN conjunct2, rule_format, OF h2]
  have e: "source (bullet ?w1) = ''A''" "kills player_A + 1 = 1"
    by (simp_all add: src k)
  from t1 have c1a: "fst ?u1 = None" by (rule conjunct1)
  from t1 have "map_option kills (Hashmap_get (clients (snd ?u1)) (source (bullet ?w1))) =
      Some (kills player_A + 1)"
    by blast
  then have c1b: "map_option kills (Hashmap_get (clients (snd ?u1)) ''A'') = Some 1"
    by (simp only: e)
  from t1 obtain m where m: "m < length (clients ?w1)"
      "fst (clients ?w1 ! m) = source (bullet ?w1)"
      "kills_of (clients (snd ?u1)) =
         (kills_of (clients ?w1))[m := kills_of (clients ?w1) ! m + 1]"
    by blast
  from m(1) have "m = 0 \<or> m = 1 \<or> m = 2" by auto
  with m(2) have "m = 0" by (auto simp: src)
  with m(3) have c1c: "kills_of (clients (snd ?u1)) = [1, 0, 5]"
    by (simp add: k)
  from t2 have c2: "kills_of (clients (snd ?u2)) = [0, 5]"
    by (simp add: k)
  from ne f1 dead sh c1a c1b c1c f2 alive c2 show ?thesis by blast
qed

text \<open>
  C8: a bullet cannot hit its own shooter. Every player of the registry whose \<open>id\<close>
  equals the bullet's source has the same health (and the same \<open>id\<close>) after the
  update as before, and such a player is never a hit candidate: the outcome of the
  update does not depend on what the collision test would answer for a player whose
  \<open>id\<close> is the source.
\<close>

theorem shooter_is_never_hit:
  "length (clients (snd (Bullet_update dt inWorld pHit cHit w))) = length (clients w) \<and>
   (\<forall>i<length (clients w). player_id (snd (clients w ! i)) = source (bullet w) \<longrightarrow>
      player_id (snd (clients (snd (Bullet_update dt inWorld pHit cHit w)) ! i)) =
        source (bullet w) \<and>
      player_health (snd (clients (snd (Bullet_update dt inWorld pHit cHit w)) ! i)) =
        player_health (snd (clients w ! i))) \<and>
   ((\<forall>p b. source b \<noteq> player_id p \<longrightarrow> pHit p b = pHit' p b) \<longrightarrow>
      Bullet_update dt inWorld pHit cHit w = Bullet_update dt inWorld pHit' cHit w)"
proof (intro conjI allI impI)
  let ?cl = "clients (snd (Bullet_update dt inWorld pHit cHit w))"
  have ids: "map (\<lambda>kp. player_id (snd kp)) ?cl = map (\<lambda>kp. player_id (snd kp)) (clients w)"
    by (rule Bullet_update_ids)
  from ids show len: "length ?cl = length (clients w)"
    by (rule map_eq_imp_length_eq)
  fix i assume i: "i < length (clients w)"
    and own: "player_id (snd (clients w ! i)) = source (bullet w)"
  from ids have "map (\<lambda>kp. player_id (snd kp)) ?cl ! i =
      map (\<lambda>kp. player_id (snd kp)) (clients w) ! i"
    by simp
  with i len own show "player_id (snd (?cl ! i)) = source (bullet w)"
    by simp
  have "healths_of ?cl ! i = healths_of (clients w) ! i"
    using Bullet_update_healths [of dt inWorld pHit cHit w]
  proof
    assume "healths_of ?cl = healths_of (clients w)"
    then show ?thesis by simp
  next
    assume "\<exists>j. first_at (player_eligible pHit (Bullet_advance dt (bullet w)))
          (Hashmap_values (clients w)) j \<and>
        healths_of ?cl =
          (healths_of (clients w))[j := player_health (snd (clients w ! j)) - damage (bullet w)]"
    then obtain j where j: "first_at (player_eligible pHit (Bullet_advance dt (bullet w)))
          (Hashmap_values (clients w)) j"
      and h: "healths_of ?cl =
          (healths_of (clients w))[j := player_health (snd (clients w ! j)) - damage (bullet w)]"
      by blast
    from j have "source (bullet w) \<noteq> player_id (snd (clients w ! j))"
      by (auto simp: first_at_iff player_eligible_def Hashmap_values_def)
    with own have "i \<noteq> j" by auto
    with h show ?thesis by simp
  qed
  with i len show "player_health (snd (?cl ! i)) = player_health (snd (clients w ! i))"
    by (simp add: healths_of_def)
next
  assume "\<forall>p b. source b \<noteq> player_id p \<longrightarrow> pHit p b = pHit' p b"
  then show "Bullet_update dt inWorld pHit cHit w = Bullet_update dt inWorld pHit' cHit w"
    by (rule Bullet_update_hit_test_cong)
qed

theorem shooter_is_never_hit_witness:
  "player_id (snd ([(''A'', player_A), (''C'', player_C)] ! 0)) = source bullet_A \<and>
   player_health (snd (clients (snd (Bullet_update 16 square_world hit_all hit_none
       \<lparr>bullet = bullet_A, clients = [(''A'', player_A), (''C'', player_C)],
        constructs = []\<rparr>)) ! 0)) = 10 \<and>
   Bullet_update 16 square_world hit_all hit_none
       \<lparr>bullet = bullet_A, clients = [(''A'', player_A), (''C'', player_C)],
        constructs = []\<rparr> =
   Bullet_update 16 square_world hit_others hit_none
       \<lparr>bullet = bullet_A, clients = [(''A'', player_A), (''C'', player_C)],
        constructs = []\<rparr>"
proof -
  have own: "player_id (snd ([(''A'', player_A), (''C'', player_C)] ! 0)) = source bullet_A"
    by (simp add: scene_defs)
  have agree: "\<forall>p b. source b \<noteq> player_id p \<longrightarrow> hit_all p b = hit_others p b"
    by (simp add: hit_all_def hit_others_def)
  have h: "player_health player_A = 10"
    by (simp add: player_A_def)
  note t = shooter_is_never_hit [of 16 square_world hit_all hit_none
      "\<lparr>bullet = bullet_A, clients = [(''A'', player_A), (''C'', player_C)],
        constructs = []\<rparr>" hit_others]
  have same: "player_health (snd (clients (snd (Bullet_update 16 square_world hit_all hit_none
       \<lparr>bullet = bullet_A, clients = [(''A'', player_A), (''C'', player_C)],
        constructs = []\<rparr>)) ! 0)) = 10"
    using t [THEN conjunct2, THEN conjunct1, rule_format, of 0] own h by simp
  have indep: "Bullet_update 16 square_world hit_all hit_none
       \<lparr>bullet = bullet_A, clients = [(''A'', player_A), (''C'', player_C)],
        constructs = []\<rparr> =
     Bullet_update 16 square_world hit_others hit_none
       \<lparr>bullet = bullet_A, clients = [(''A'', player_A), (''C'', player_C)],
        constructs = []\<rparr>"
    using t [THEN conjunct2, THEN conjunct2] agree by (rule mp)
  from own same indep show ?thesis by blast
qed

text \<open>
  C9: \<open>shouldExist\<close> is true in every bullet the constructor or the factory returns,
  and an update never turns it from false to true: a bullet that is dead before an
  update is dead after it, so whenever the flag is true after an update it was true
  before.
\<close>

theorem shouldExist_is_one_directional:
  "shouldExist (Bullet x0 y0 vx0 vy0 o0 h0 s0 d0) \<and>
   shouldExist (Bullet_create x0 y0 dir s0) \<and>
   (\<not> shouldExist (bullet w) \<longrightarrow>
      \<not> shouldExist (bullet (snd (Bullet_update dt inWorld pHit cHit w))))"
proof -
  have "\<not> shouldExist (bullet (snd (Bullet_update dt inWorld pHit cHit w)))"
    if "\<not> shouldExist (bullet w)"
    using Bullet_update_bullet [of dt inWorld pHit cHit w] that by auto
  then show ?thesis
    by (simp add: Bullet_create_def Bullet_def Let_def)
qed

theorem shouldExist_is_one_directional_witness:
  "\<not> shouldExist (bullet_A\<lparr>shouldExist := False\<rparr>) \<and>
   \<not> shouldExist (bullet (snd (Bullet_update 16 square_world hit_none hit_none
       \<lparr>bullet = bullet_A\<lparr>shouldExist := False\<rparr>, clients = [(''B'', player_B)],
        constructs = [turret_B]\<rparr>)))"
  using shouldExist_is_one_directional [of 0 0 0 0 0 0 "''A''" 0 0
      "\<lparr>bullet = bullet_A\<lparr>shouldExist := False\<rparr>, clients = [(''B'', player_B)],
        constructs = [turret_B]\<rparr>" 16 square_world hit_none hit_none]
  by simp

text \<open>
  C10: an update leaves \<open>vx\<close>, \<open>vy\<close>, \<open>orientation\<close>, \<open>hitboxSize\<close>,
  \<open>source\<close> and \<open>damage\<close> of the bullet as they were; the other fields
  (\<open>x\<close>, \<open>y\<close>, \<open>distanceTraveled\<close>, \<open>shouldExist\<close>, \<open>updateTimeDifference\<close>)
  are the only ones that can differ.
\<close>

theorem update_keeps_creation_fields:
  "vx (bullet (snd (Bullet_update dt inWorld pHit cHit w))) = vx (bullet w) \<and>
   vy (bullet (snd (Bullet_update dt inWorld pHit cHit w))) = vy (bullet w) \<and>
   orientation (bullet (snd (Bullet_update dt inWorld pHit cHit w))) = orientation (bullet w) \<and>
   hitboxSize (bullet (snd (Bullet_update dt inWorld pHit cHit w))) = hitboxSize (bullet w) \<and>
   source (bullet (snd (Bullet_update dt inWorld pHit cHit w))) = source (bullet w) \<and>
   damage (bullet (snd (Bullet_update dt inWorld pHit cHit w))) = damage (bullet w)"
  using Bullet_update_bullet [of dt inWorld pHit cHit w] by auto

theorem update_keeps_creation_fields_witness:
  "vx (bullet (snd (Bullet_update 16 square_world hit_all hit_all
       \<lparr>bullet = bullet_A, clients = [(''A'', player_A), (''B'', player_B)],
        constructs = [turret_B]\<rparr>))) = 0 \<and>
   vy (bullet (snd (Bullet_update 16 square_world hit_all hit_all
       \<lparr>bullet = bullet_A, clients = [(''A'', player_A), (''B'', player_B)],
        constructs = [turret_B]\<rparr>))) = - (85 / 100) \<and>
   orientation (bullet (snd (Bullet_update 16 square_world hit_all hit_all
       \<lparr>bullet = bullet_A, clients = [(''A'', player_A), (''B'', player_B)],
        constructs = [turret_B]\<rparr>))) = 0 \<and>
   hitboxSize (bullet (snd (Bullet_update 16 square_world hit_all hit_all
       \<lparr>bullet = bullet_A, clients = [(''A'', player_A), (''B'', player_B)],
        constructs = [turret_B]\<rparr>))) = 4 \<and>
   source (bullet (snd (Bullet_update 16 square_world hit_all hit_all
       \<lparr>bullet = bullet_A, clients = [(''A'', player_A), (''B'', player_B)],
        constructs = [turret_B]\<rparr>))) = ''A'' \<and>
   damage (bullet (snd (Bullet_update 16 square_world hit_all hit_all
       \<lparr>bullet = bullet_A, clients = [(''A'', player_A), (''B'', player_B)],
        constructs = [turret_B]\<rparr>))) = 1"
  using update_keeps_creation_fields [of 16 square_world hit_all hit_all
      "\<lparr>bullet = bullet_A, clients = [(''A'', player_A), (''B'', player_B)],
        constructs = [turret_B]\<rparr>"]
  by (simp add: bullet_A_def Bullet_def)

end
